theory Spec2Isabelle
  imports Complex_Main "HOL-Library.Monad_Syntax"
begin

section \<open>Trade analytics aggregation (UserAnalyticsPage.tsx, calculateUserAnalytics)\<close>

text \<open>
  The embedding follows \<^verbatim>\<open>calculateUserAnalytics\<close> of
  \<^verbatim>\<open>src/components/Analytics/UserAnalyticsPage.tsx\<close> statement by statement.

  The function computes with JavaScript numbers. Their arithmetic is not part of the
  repository, so the model takes it as a parameter: a \<open>runtime\<close> gives the number type,
  the operations the function uses on it, and \<^verbatim>\<open>Math.max\<close> applied to a spread array.
  Two runtimes are defined. \<open>exact_runtime\<close> computes with real numbers and has no value
  where the real result does not exist (a zero divisor, the square root of a negative
  number, the maximum of nothing). \<open>binary64_runtime\<close> computes with IEEE 754 doubles,
  rounding every result to nearest (ties to even), with the infinities and NaN, and throws
  \<^verbatim>\<open>RangeError\<close> when an array spread into \<^verbatim>\<open>Math.max\<close> has more elements than the
  engine accepts as arguments. A run that ends without a result is \<open>None\<close>.
  Array lengths and the streak counters are natural numbers.
\<close>

subsection \<open>Data\<close>

text \<open>The fields of \<^verbatim>\<open>Trade\<close> and \<^verbatim>\<open>TradingSession\<close> that the function reads.
  \<^verbatim>\<open>entry_side\<close> is kept as the string the code compares with \<^verbatim>\<open>===\<close>.\<close>

record 'n Trade =
  profit_loss :: 'n
  roi :: 'n
  entry_side :: string

record 'n TradingSession =
  current_capital :: 'n

datatype RiskLevel = Low | Moderate | High

record 'n UserAnalytics =
  sharpeRatio :: 'n
  maxDrawdown :: 'n
  maxDrawdownAmount :: 'n
  profitFactor :: 'n
  totalTrades :: nat
  winRate :: 'n
  totalPnL :: 'n
  longTrades :: nat
  shortTrades :: nat
  avgHoldTime :: string
  bestTime :: string
  avgRiskPerTrade :: 'n
  maxRisk :: 'n
  bestStreak :: nat
  worstStreak :: nat
  riskLevel :: RiskLevel
  activeCapital :: 'n

subsection \<open>The number operations the function uses\<close>

text \<open>
  \<open>n_lit\<close> is a numeric literal or an array length used as a number, \<open>n_pow\<close> is
  \<^verbatim>\<open>Math.pow\<close> with a literal exponent, \<open>n_max\<close> is \<^verbatim>\<open>Math.max(...xs)\<close>; the others are
  \<^verbatim>\<open>+\<close>, \<^verbatim>\<open>-\<close>, \<^verbatim>\<open>*\<close>, \<^verbatim>\<open>/\<close>, \<^verbatim>\<open>Math.sqrt\<close>, \<^verbatim>\<open>Math.abs\<close>, \<^verbatim>\<open>>\<close> and \<^verbatim>\<open><\<close>.
\<close>

record 'n runtime =
  n_lit :: "nat \<Rightarrow> 'n"
  n_add :: "'n \<Rightarrow> 'n \<Rightarrow> 'n"
  n_sub :: "'n \<Rightarrow> 'n \<Rightarrow> 'n"
  n_mul :: "'n \<Rightarrow> 'n \<Rightarrow> 'n"
  n_div :: "'n \<Rightarrow> 'n \<Rightarrow> 'n option"
  n_pow :: "'n \<Rightarrow> nat \<Rightarrow> 'n"
  n_sqrt :: "'n \<Rightarrow> 'n option"
  n_abs :: "'n \<Rightarrow> 'n"
  n_gt :: "'n \<Rightarrow> 'n \<Rightarrow> bool"
  n_lt :: "'n \<Rightarrow> 'n \<Rightarrow> bool"
  n_max :: "'n list \<Rightarrow> 'n option"

subsection \<open>Exact arithmetic\<close>

text \<open>\<^verbatim>\<open>a / b\<close>: with a zero divisor JavaScript gives an infinity or NaN, which is no
  real number.\<close>

definition js_div :: "real \<Rightarrow> real \<Rightarrow> real option" where
  "js_div a b = (if b = 0 then None else Some (a / b))"

text \<open>\<^verbatim>\<open>Math.sqrt(x)\<close>: NaN for a negative argument.\<close>

definition js_sqrt :: "real \<Rightarrow> real option" where
  "js_sqrt x = (if x < 0 then None else Some (sqrt x))"

text \<open>\<^verbatim>\<open>Math.max(...xs)\<close>: minus infinity when there is no argument.\<close>

fun js_max :: "real list \<Rightarrow> real option" where
  "js_max [] = None"
| "js_max (x # xs) = Some (foldl max x xs)"

definition exact_runtime :: "real runtime" where
  "exact_runtime =
     \<lparr>n_lit = real, n_add = (+), n_sub = (-), n_mul = (*), n_div = js_div,
      n_pow = (^), n_sqrt = js_sqrt, n_abs = abs,
      n_gt = (\<lambda>a b. a > b), n_lt = (\<lambda>a b. a < b), n_max = js_max\<rparr>"

subsection \<open>IEEE 754 binary64 arithmetic\<close>

text \<open>
  A double is a finite value, an infinity or NaN. \<open>Fin x\<close> stands for the finite double of
  value \<open>x\<close>; the two zeros are one value, since the function never divides by zero (every
  divisor is guarded by \<^verbatim>\<open>> 0\<close> or is a non-zero length) and otherwise only adds, compares
  and takes absolute values, where the sign of a zero is not observed.

  \<open>rnd\<close> rounds a real number to the nearest double, ties to the even significand:
  53 bits of precision, the least exponent \<open>- 1022\<close> (below it the spacing of the
  doubles stays \<open>2 powi (- 1074)\<close>), and an infinity once the rounded magnitude reaches
  \<open>2 powi 1024\<close>. IEEE 754 defines \<^verbatim>\<open>+\<close>, \<^verbatim>\<open>-\<close>, \<^verbatim>\<open>*\<close>, \<^verbatim>\<open>/\<close> and the square
  root as the rounded exact result; \<^verbatim>\<open>Math.pow\<close> with a literal exponent is taken as the
  rounded exact power. A numeric literal of the source and a number parsed from text
  denote the rounded value, so the input \<^verbatim>\<open>0.1\<close> is \<open>rnd (1 / 10)\<close>.
\<close>

datatype double = Fin real | PInf | NInf | NaN

definition rte :: "real \<Rightarrow> int" where
  "rte x = (let f = \<lfloor>x\<rfloor>; d = x - of_int f
            in if d < 1 / 2 then f else if 1 / 2 < d then f + 1
               else if even f then f else f + 1)"

definition expo :: "real \<Rightarrow> int" where
  "expo x = max (- 1022) \<lfloor>log 2 \<bar>x\<bar>\<rfloor>"

definition ulp :: "real \<Rightarrow> real" where
  "ulp x = 2 powi (expo x - 52)"

definition rnd :: "real \<Rightarrow> double" where
  "rnd x = (if x = 0 then Fin 0
            else let y = of_int (rte (x / ulp x)) * ulp x
                 in if 2 powi 1024 \<le> \<bar>y\<bar> then (if 0 < x then PInf else NInf) else Fin y)"

fun d_neg :: "double \<Rightarrow> double" where
  "d_neg (Fin a) = Fin (- a)"
| "d_neg PInf = NInf"
| "d_neg NInf = PInf"
| "d_neg NaN = NaN"

fun d_add :: "double \<Rightarrow> double \<Rightarrow> double" where
  "d_add (Fin a) (Fin b) = rnd (a + b)"
| "d_add (Fin a) PInf = PInf"
| "d_add (Fin a) NInf = NInf"
| "d_add PInf (Fin b) = PInf"
| "d_add PInf PInf = PInf"
| "d_add PInf NInf = NaN"
| "d_add NInf (Fin b) = NInf"
| "d_add NInf NInf = NInf"
| "d_add NInf PInf = NaN"
| "d_add NaN b = NaN"
| "d_add a NaN = NaN"

definition d_sub :: "double \<Rightarrow> double \<Rightarrow> double" where
  "d_sub a b = d_add a (d_neg b)"

fun d_mul :: "double \<Rightarrow> double \<Rightarrow> double" where
  "d_mul (Fin a) (Fin b) = rnd (a * b)"
| "d_mul (Fin a) PInf = (if a = 0 then NaN else if 0 < a then PInf else NInf)"
| "d_mul (Fin a) NInf = (if a = 0 then NaN else if 0 < a then NInf else PInf)"
| "d_mul PInf (Fin b) = (if b = 0 then NaN else if 0 < b then PInf else NInf)"
| "d_mul NInf (Fin b) = (if b = 0 then NaN else if 0 < b then NInf else PInf)"
| "d_mul PInf PInf = PInf"
| "d_mul PInf NInf = NInf"
| "d_mul NInf PInf = NInf"
| "d_mul NInf NInf = PInf"
| "d_mul NaN b = NaN"
| "d_mul a NaN = NaN"

text \<open>A zero divisor is taken as the positive zero.\<close>

fun d_div :: "double \<Rightarrow> double \<Rightarrow> double" where
  "d_div (Fin a) (Fin b) =
     (if b = 0 then (if a = 0 then NaN else if 0 < a then PInf else NInf) else rnd (a / b))"
| "d_div (Fin a) PInf = Fin 0"
| "d_div (Fin a) NInf = Fin 0"
| "d_div PInf (Fin b) = (if 0 \<le> b then PInf else NInf)"
| "d_div NInf (Fin b) = (if 0 \<le> b then NInf else PInf)"
| "d_div PInf PInf = NaN"
| "d_div PInf NInf = NaN"
| "d_div NInf PInf = NaN"
| "d_div NInf NInf = NaN"
| "d_div NaN b = NaN"
| "d_div a NaN = NaN"

fun d_sqrt :: "double \<Rightarrow> double" where
  "d_sqrt (Fin a) = (if a < 0 then NaN else rnd (sqrt a))"
| "d_sqrt PInf = PInf"
| "d_sqrt NInf = NaN"
| "d_sqrt NaN = NaN"

fun d_pow :: "double \<Rightarrow> nat \<Rightarrow> double" where
  "d_pow (Fin a) k = rnd (a ^ k)"
| "d_pow PInf k = (if k = 0 then Fin 1 else PInf)"
| "d_pow NInf k = (if k = 0 then Fin 1 else if even k then PInf else NInf)"
| "d_pow NaN k = (if k = 0 then Fin 1 else NaN)"

fun d_abs :: "double \<Rightarrow> double" where
  "d_abs (Fin a) = Fin \<bar>a\<bar>"
| "d_abs PInf = PInf"
| "d_abs NInf = PInf"
| "d_abs NaN = NaN"

text \<open>\<^verbatim>\<open>a > b\<close>: false as soon as one side is NaN.\<close>

fun d_gt :: "double \<Rightarrow> double \<Rightarrow> bool" where
  "d_gt (Fin a) (Fin b) = (b < a)"
| "d_gt (Fin a) PInf = False"
| "d_gt (Fin a) NInf = True"
| "d_gt PInf (Fin b) = True"
| "d_gt PInf NInf = True"
| "d_gt PInf PInf = False"
| "d_gt NInf b = False"
| "d_gt NaN b = False"
| "d_gt a NaN = False"

definition d_lt :: "double \<Rightarrow> double \<Rightarrow> bool" where
  "d_lt a b = d_gt b a"

text \<open>\<^verbatim>\<open>Math.max\<close> of two arguments: NaN as soon as one of them is.\<close>

definition d_max2 :: "double \<Rightarrow> double \<Rightarrow> double" where
  "d_max2 a b = (if a = NaN \<or> b = NaN then NaN else if d_gt a b then a else b)"

text \<open>\<^verbatim>\<open>Math.max(...xs)\<close>: every element of the array becomes an argument of the call. An
  engine accepts a bounded number of arguments, \<open>limit\<close>, and throws \<^verbatim>\<open>RangeError\<close>
  beyond it; the standard does not fix the bound, so it is a parameter. Without arguments
  the result is minus infinity.\<close>

definition d_math_max :: "nat \<Rightarrow> double list \<Rightarrow> double option" where
  "d_math_max limit xs = (if limit < length xs then None else Some (foldl d_max2 NInf xs))"

definition d_lit :: "nat \<Rightarrow> double" where
  "d_lit n = rnd (real n)"

definition binary64_runtime :: "nat \<Rightarrow> double runtime" where
  "binary64_runtime limit =
     \<lparr>n_lit = d_lit, n_add = d_add, n_sub = d_sub, n_mul = d_mul,
      n_div = (\<lambda>a b. Some (d_div a b)), n_pow = d_pow,
      n_sqrt = (\<lambda>a. Some (d_sqrt a)), n_abs = d_abs,
      n_gt = d_gt, n_lt = d_lt, n_max = d_math_max limit\<rparr>"

subsection \<open>Loops\<close>

text \<open>\<^verbatim>\<open>xs.forEach(f)\<close> where the body updates local variables and may end the run.\<close>

fun forEach :: "('s \<Rightarrow> 'a \<Rightarrow> 's option) \<Rightarrow> 'a list \<Rightarrow> 's \<Rightarrow> 's option" where
  "forEach f [] s = Some s"
| "forEach f (x # xs) s = (case f s x of None \<Rightarrow> None | Some s' \<Rightarrow> forEach f xs s')"

subsection \<open>The drawdown loop (lines 128-144)\<close>

record 'n drawdown_vars =
  var_runningPnL :: 'n
  var_peak :: 'n
  var_maxDrawdown :: 'n
  var_maxDrawdownAmount :: 'n

definition drawdown_init :: "'n runtime \<Rightarrow> 'n drawdown_vars" where
  "drawdown_init rt =
     \<lparr>var_runningPnL = n_lit rt 0, var_peak = n_lit rt 0,
      var_maxDrawdown = n_lit rt 0, var_maxDrawdownAmount = n_lit rt 0\<rparr>"

definition drawdown_step ::
  "'n runtime \<Rightarrow> 'n drawdown_vars \<Rightarrow> 'n Trade \<Rightarrow> 'n drawdown_vars option" where
  "drawdown_step rt v trade =
     (let v1 = v\<lparr>var_runningPnL := n_add rt (var_runningPnL v) (profit_loss trade)\<rparr>;
          v2 = (if n_gt rt (var_runningPnL v1) (var_peak v1)
                then v1\<lparr>var_peak := var_runningPnL v1\<rparr> else v1);
          drawdown = n_sub rt (var_peak v2) (var_runningPnL v2)
      in if n_gt rt drawdown (var_maxDrawdownAmount v2)
         then do {
           pct \<leftarrow> (if n_gt rt (var_peak v2) (n_lit rt 0)
                   then do { q \<leftarrow> n_div rt drawdown (var_peak v2);
                             Some (n_mul rt q (n_lit rt 100)) }
                   else Some (n_lit rt 0));
           Some (v2\<lparr>var_maxDrawdownAmount := drawdown, var_maxDrawdown := pct\<rparr>)
         }
         else Some v2)"

subsection \<open>The streak loop (lines 152-169)\<close>

text \<open>The local \<^verbatim>\<open>currentStreak\<close> is declared and never read or written again; it
  has no field here.\<close>

record streak_vars =
  var_bestStreak :: nat
  var_worstStreak :: nat
  var_currentWinStreak :: nat
  var_currentLossStreak :: nat

definition streak_init :: streak_vars where
  "streak_init =
     \<lparr>var_bestStreak = 0, var_worstStreak = 0,
      var_currentWinStreak = 0, var_currentLossStreak = 0\<rparr>"

definition streak_step :: "'n runtime \<Rightarrow> streak_vars \<Rightarrow> 'n Trade \<Rightarrow> streak_vars option" where
  "streak_step rt v trade =
     (if n_gt rt (profit_loss trade) (n_lit rt 0)
      then (let v1 = v\<lparr>var_currentWinStreak := var_currentWinStreak v + 1\<rparr>;
                v2 = v1\<lparr>var_currentLossStreak := 0\<rparr>
            in Some (v2\<lparr>var_bestStreak := max (var_bestStreak v2) (var_currentWinStreak v2)\<rparr>))
      else (let v1 = v\<lparr>var_currentLossStreak := var_currentLossStreak v + 1\<rparr>;
                v2 = v1\<lparr>var_currentWinStreak := 0\<rparr>
            in Some (v2\<lparr>var_worstStreak := max (var_worstStreak v2) (var_currentLossStreak v2)\<rparr>)))"

subsection \<open>calculateUserAnalytics (lines 95-198)\<close>

text \<open>The locals that share their name with a field of the result carry the suffix
  \<open>0\<close> (\<open>totalPnL0\<close>, \<open>profitFactor0\<close>, ...); \<open>winFraction\<close> and \<open>variance\<close> name
  the quotients that the code multiplies by 100 and passes to \<^verbatim>\<open>Math.sqrt\<close> without
  naming them.\<close>

definition calculateUserAnalytics ::
  "'n runtime \<Rightarrow> 'n TradingSession list \<Rightarrow> 'n Trade list \<Rightarrow> 'n UserAnalytics option" where
  "calculateUserAnalytics rt sessions trades =
     (if length trades = 0 then
        Some \<lparr>sharpeRatio = n_lit rt 0, maxDrawdown = n_lit rt 0,
              maxDrawdownAmount = n_lit rt 0, profitFactor = n_lit rt 0,
              totalTrades = 0, winRate = n_lit rt 0, totalPnL = n_lit rt 0,
              longTrades = 0, shortTrades = 0,
              avgHoldTime = ''0h'', bestTime = ''N/A'',
              avgRiskPerTrade = n_lit rt 0, maxRisk = n_lit rt 0,
              bestStreak = 0, worstStreak = 0, riskLevel = Low,
              activeCapital =
                foldl (\<lambda>sum s. n_add rt sum (current_capital s)) (n_lit rt 0) sessions\<rparr>
      else do {
        let totalPnL0 = foldl (\<lambda>sum trade. n_add rt sum (profit_loss trade)) (n_lit rt 0) trades;
        let winningTrades = filter (\<lambda>trade. n_gt rt (profit_loss trade) (n_lit rt 0)) trades;
        let losingTrades = filter (\<lambda>trade. n_lt rt (profit_loss trade) (n_lit rt 0)) trades;
        let totalProfit =
          foldl (\<lambda>sum trade. n_add rt sum (profit_loss trade)) (n_lit rt 0) winningTrades;
        let totalLoss =
          n_abs rt (foldl (\<lambda>sum trade. n_add rt sum (profit_loss trade)) (n_lit rt 0) losingTrades);
        profitFactor0 \<leftarrow>
          (if n_gt rt totalLoss (n_lit rt 0) then n_div rt totalProfit totalLoss
           else Some (if n_gt rt totalProfit (n_lit rt 0) then n_lit rt 999 else n_lit rt 0));
        winFraction \<leftarrow> n_div rt (n_lit rt (length winningTrades)) (n_lit rt (length trades));
        let winRate0 = n_mul rt winFraction (n_lit rt 100);
        dd \<leftarrow> forEach (drawdown_step rt) trades (drawdown_init rt);
        let returns = map roi trades;
        avgReturn \<leftarrow>
          n_div rt (foldl (\<lambda>sum r. n_add rt sum r) (n_lit rt 0) returns)
                   (n_lit rt (length returns));
        variance \<leftarrow>
          n_div rt (foldl (\<lambda>sum r. n_add rt sum (n_pow rt (n_sub rt r avgReturn) 2))
                          (n_lit rt 0) returns)
                   (n_lit rt (length returns));
        stdDev \<leftarrow> n_sqrt rt variance;
        sharpeRatio0 \<leftarrow>
          (if n_gt rt stdDev (n_lit rt 0) then n_div rt avgReturn stdDev else Some (n_lit rt 0));
        st \<leftarrow> forEach (streak_step rt) trades streak_init;
        avgRiskPerTrade0 \<leftarrow>
          n_div rt (foldl (\<lambda>sum trade. n_add rt sum (n_abs rt (profit_loss trade)))
                          (n_lit rt 0) trades)
                   (n_lit rt (length trades));
        maxRisk0 \<leftarrow> n_max rt (map (\<lambda>trade. n_abs rt (profit_loss trade)) trades);
        let riskLevel0 =
          (if n_gt rt (var_maxDrawdown dd) (n_lit rt 20) then High
           else if n_gt rt (var_maxDrawdown dd) (n_lit rt 10) then Moderate else Low);
        Some \<lparr>sharpeRatio = sharpeRatio0,
              maxDrawdown = var_maxDrawdown dd,
              maxDrawdownAmount = var_maxDrawdownAmount dd,
              profitFactor = profitFactor0,
              totalTrades = length trades,
              winRate = winRate0,
              totalPnL = totalPnL0,
              longTrades = length (filter (\<lambda>t. entry_side t = ''Long'') trades),
              shortTrades = length (filter (\<lambda>t. entry_side t = ''Short'') trades),
              avgHoldTime = ''2.5h'',
              bestTime = ''Morning'',
              avgRiskPerTrade = avgRiskPerTrade0,
              maxRisk = maxRisk0,
              bestStreak = var_bestStreak st,
              worstStreak = var_worstStreak st,
              riskLevel = riskLevel0,
              activeCapital =
                foldl (\<lambda>sum s. n_add rt sum (current_capital s)) (n_lit rt 0) sessions\<rparr>
      })"

subsection \<open>Reference formulations of the two walks\<close>

text \<open>
  The statements about the drawdown and streak loops compare the code with the
  description of the walk itself. These definitions are written from that description,
  not from the code. For the streaks: the pair of run counters after a sequence of
  trades. For the drawdown, in the arithmetic of a runtime: the cumulative sum after a
  sequence of trades, the peak (the cumulative sums of the prefixes taken in order, each
  replacing the peak when it is greater, starting from zero), the drawdown (peak minus
  cumulative sum), the best-seen drawdown (the drawdowns of the prefixes taken in order,
  each replacing the best when it is greater, starting from zero) and the percentage
  that goes with the drawdown after a sequence of trades.
\<close>

definition spec_streak_counters :: "real Trade list \<Rightarrow> nat \<times> nat" where
  "spec_streak_counters ts =
     foldl (\<lambda>(w, l) t. if profit_loss t > 0 then (w + 1, 0) else (0, l + 1)) (0, 0) ts"

definition spec_running :: "'n runtime \<Rightarrow> 'n Trade list \<Rightarrow> 'n" where
  "spec_running rt ts = foldl (\<lambda>sum t. n_add rt sum (profit_loss t)) (n_lit rt 0) ts"

definition spec_peak :: "'n runtime \<Rightarrow> 'n Trade list \<Rightarrow> 'n" where
  "spec_peak rt ts =
     foldl (\<lambda>p k. if n_gt rt (spec_running rt (take k ts)) p
                   then spec_running rt (take k ts) else p)
           (n_lit rt 0) [1..<Suc (length ts)]"

definition spec_drawdown :: "'n runtime \<Rightarrow> 'n Trade list \<Rightarrow> 'n" where
  "spec_drawdown rt ts = n_sub rt (spec_peak rt ts) (spec_running rt ts)"

definition spec_best :: "'n runtime \<Rightarrow> 'n Trade list \<Rightarrow> 'n" where
  "spec_best rt ts =
     foldl (\<lambda>b k. if n_gt rt (spec_drawdown rt (take k ts)) b
                   then spec_drawdown rt (take k ts) else b)
           (n_lit rt 0) [1..<Suc (length ts)]"

definition spec_percent :: "'n runtime \<Rightarrow> 'n Trade list \<Rightarrow> 'n option" where
  "spec_percent rt ts =
     (if n_gt rt (spec_peak rt ts) (n_lit rt 0)
      then map_option (\<lambda>q. n_mul rt q (n_lit rt 100))
             (n_div rt (spec_drawdown rt ts) (spec_peak rt ts))
      else Some (n_lit rt 0))"

section \<open>Auxiliary facts about the embedding\<close>

lemma exact_ops:
  "n_lit exact_runtime n = real n"
  "n_add exact_runtime a b = a + b"
  "n_sub exact_runtime a b = a - b"
  "n_mul exact_runtime a b = a * b"
  "n_div exact_runtime a b = js_div a b"
  "n_pow exact_runtime a k = a ^ k"
  "n_sqrt exact_runtime a = js_sqrt a"
  "n_abs exact_runtime a = \<bar>a\<bar>"
  "n_gt exact_runtime a b \<longleftrightarrow> b < a"
  "n_lt exact_runtime a b \<longleftrightarrow> a < b"
  "n_max exact_runtime xs = js_max xs"
  by (simp_all add: exact_runtime_def)

lemma foldl_add_sum_list:
  "foldl (\<lambda>sum x. sum + f x) (a::real) xs = a + sum_list (map f xs)"
  by (induction xs arbitrary: a) simp_all

lemma forEach_snoc:
  "forEach f (xs @ [x]) s = (case forEach f xs s of None \<Rightarrow> None | Some s' \<Rightarrow> f s' x)"
  by (induction xs arbitrary: s) (simp_all split: option.splits)

lemma js_div_Some: "b \<noteq> 0 \<Longrightarrow> js_div a b = Some (a / b)"
  by (simp add: js_div_def)

lemma drawdown_step_Some:
  "drawdown_step exact_runtime v trade =
     Some (let r = var_runningPnL v + profit_loss trade;
               p = max (var_peak v) r;
               d = p - r
           in if d > var_maxDrawdownAmount v
              then \<lparr>var_runningPnL = r, var_peak = p,
                    var_maxDrawdown = (if p > 0 then d / p * 100 else 0),
                    var_maxDrawdownAmount = d\<rparr>
              else \<lparr>var_runningPnL = r, var_peak = p,
                    var_maxDrawdown = var_maxDrawdown v,
                    var_maxDrawdownAmount = var_maxDrawdownAmount v\<rparr>)"
  by (simp add: drawdown_step_def exact_ops Let_def js_div_def max_def)

lemma forEach_total:
  assumes "\<And>s x. f s x \<noteq> None"
  shows "\<exists>s'. forEach f xs s = Some s'"
proof (induction xs arbitrary: s)
  case Nil show ?case by simp
next
  case (Cons x xs)
  from assms obtain s1 where "f s x = Some s1" by blast
  with Cons show ?case by simp
qed

lemma foldl_max_Max: "foldl max (y::real) ys = Max (insert y (set ys))"
proof (induction ys arbitrary: y)
  case Nil show ?case by simp
next
  case (Cons z zs)
  have "Max (insert (max y z) (set zs)) = Max (insert y (insert z (set zs)))"
    by (cases "set zs = {}") (simp_all add: max.assoc)
  with Cons show ?case by simp
qed

lemma js_max_Some: "xs \<noteq> [] \<Longrightarrow> js_max xs = Some (Max (set xs))"
  by (cases xs) (simp_all add: foldl_max_Max)


lemma drawdown_loop_total: "\<exists>dd. forEach (drawdown_step exact_runtime) trades v = Some dd"
  by (rule forEach_total) (simp add: drawdown_step_Some)

lemma streak_loop_total: "\<exists>st. forEach (streak_step exact_runtime) trades v = Some st"
  by (rule forEach_total) (simp add: streak_step_def exact_ops Let_def)

lemma variance_nonneg: "0 \<le> sum_list (map (\<lambda>r. (r - a) ^ 2) (rs::real list)) / real (length rs)"
  by (intro divide_nonneg_nonneg sum_list_nonneg) auto

lemma if_Some_Some: "(if c then Some x else Some y) = Some (if c then x else y)"
  by simp

lemma guarded_div:
  "(if 0 < b then js_div a b else Some c) = Some (if 0 < b then a / b else c)"
  by (simp add: js_div_def)

lemma calculateUserAnalytics_nonempty:
  assumes ne: "trades \<noteq> []"
  shows "\<exists>dd st.
    forEach (drawdown_step exact_runtime) trades (drawdown_init exact_runtime) = Some dd \<and>
    forEach (streak_step exact_runtime) trades streak_init = Some st \<and>
    calculateUserAnalytics exact_runtime sessions trades =
      Some \<lparr>sharpeRatio =
               (let avgReturn = sum_list (map roi trades) / real (length trades);
                    stdDev = sqrt (sum_list (map (\<lambda>r. (r - avgReturn) ^ 2) (map roi trades))
                                   / real (length trades))
                in if stdDev > 0 then avgReturn / stdDev else 0),
             maxDrawdown = var_maxDrawdown dd,
             maxDrawdownAmount = var_maxDrawdownAmount dd,
             profitFactor =
               (let totalProfit = sum_list (map profit_loss (filter (\<lambda>t. profit_loss t > 0) trades));
                    totalLoss = \<bar>sum_list (map profit_loss (filter (\<lambda>t. profit_loss t < 0) trades))\<bar>
                in if totalLoss > 0 then totalProfit / totalLoss
                   else if totalProfit > 0 then 999 else 0),
             totalTrades = length trades,
             winRate = real (length (filter (\<lambda>t. profit_loss t > 0) trades))
                         / real (length trades) * 100,
             totalPnL = sum_list (map profit_loss trades),
             longTrades = length (filter (\<lambda>t. entry_side t = ''Long'') trades),
             shortTrades = length (filter (\<lambda>t. entry_side t = ''Short'') trades),
             avgHoldTime = ''2.5h'',
             bestTime = ''Morning'',
             avgRiskPerTrade = sum_list (map (\<lambda>t. \<bar>profit_loss t\<bar>) trades) / real (length trades),
             maxRisk = Max ((\<lambda>t. \<bar>profit_loss t\<bar>) ` set trades),
             bestStreak = var_bestStreak st,
             worstStreak = var_worstStreak st,
             riskLevel = (if var_maxDrawdown dd > 20 then High
                          else if var_maxDrawdown dd > 10 then Moderate else Low),
             activeCapital = sum_list (map current_capital sessions)\<rparr>"
proof -
  obtain dd where dd: "forEach (drawdown_step exact_runtime) trades (drawdown_init exact_runtime) = Some dd"
    using drawdown_loop_total by blast
  obtain st where st: "forEach (streak_step exact_runtime) trades streak_init = Some st"
    using streak_loop_total by blast
  have len: "real (length trades) \<noteq> 0" "length trades \<noteq> 0" using ne by simp_all
  have mx: "js_max (map (\<lambda>t. \<bar>profit_loss t\<bar>) trades) = Some (Max ((\<lambda>t. \<bar>profit_loss t\<bar>) ` set trades))"
    using ne by (simp add: js_max_Some)
  have sq: "\<And>a. js_sqrt (sum_list (map (\<lambda>r. (r - a) ^ 2) (map roi trades)) / real (length trades))
      = Some (sqrt (sum_list (map (\<lambda>r. (r - a) ^ 2) (map roi trades)) / real (length trades)))"
    using variance_nonneg[of _ "map roi trades"] by (simp add: js_sqrt_def not_less)
  show ?thesis
    using len dd st mx sq
    unfolding calculateUserAnalytics_def exact_ops
    by (simp add: Let_def foldl_add_sum_list js_div_Some guarded_div if_Some_Some
          split del: if_split cong: if_cong)
qed

lemma calculateUserAnalytics_empty:
  "calculateUserAnalytics exact_runtime sessions [] =
     Some \<lparr>sharpeRatio = 0, maxDrawdown = 0, maxDrawdownAmount = 0, profitFactor = 0,
           totalTrades = 0, winRate = 0, totalPnL = 0, longTrades = 0, shortTrades = 0,
           avgHoldTime = ''0h'', bestTime = ''N/A'', avgRiskPerTrade = 0, maxRisk = 0,
           bestStreak = 0, worstStreak = 0, riskLevel = Low,
           activeCapital = sum_list (map current_capital sessions)\<rparr>"
  by (simp add: calculateUserAnalytics_def exact_ops foldl_add_sum_list)

lemma win_sum_nonneg:
  "0 \<le> sum_list (map profit_loss (filter (\<lambda>t. profit_loss t > 0) (ts :: real Trade list)))"
  by (induction ts) auto

lemma win_sum_pos_iff:
  "0 < sum_list (map profit_loss (filter (\<lambda>t. profit_loss t > 0) (ts :: real Trade list)))
     \<longleftrightarrow> (\<exists>t\<in>set ts. profit_loss t > 0)"
proof (induction ts)
  case Nil show ?case by simp
next
  case (Cons a ts)
  show ?case using Cons win_sum_nonneg[of ts]
    by (cases "profit_loss a > 0") auto
qed

lemma sum_list_const:
  "(\<And>t. t \<in> set ts \<Longrightarrow> f t = (c::real)) \<Longrightarrow> sum_list (map f ts) = real (length ts) * c"
  by (induction ts) (simp_all add: algebra_simps)

lemma no_losses_filter:
  "(\<And>t. t \<in> set ts \<Longrightarrow> profit_loss t \<ge> (0::real)) \<Longrightarrow>
     filter (\<lambda>t. profit_loss t < 0) ts = []"
  by (induction ts) (auto simp: not_less)

lemma Max_prefix_snoc:
  fixes g :: "'a list \<Rightarrow> 'b::linorder"
  shows "Max ((\<lambda>k. g (take k (xs @ [x]))) ` {..length (xs @ [x])})
       = max (Max ((\<lambda>k. g (take k xs)) ` {..length xs})) (g (xs @ [x]))"
proof -
  have eq: "(\<lambda>k. g (take k (xs @ [x]))) ` {..length xs} = (\<lambda>k. g (take k xs)) ` {..length xs}"
    by (rule image_cong) simp_all
  have "{..length (xs @ [x])} = insert (Suc (length xs)) {..length xs}"
    by (simp add: atMost_Suc)
  then have "(\<lambda>k. g (take k (xs @ [x]))) ` {..length (xs @ [x])}
      = insert (g (xs @ [x])) ((\<lambda>k. g (take k xs)) ` {..length xs})"
    using eq by simp
  then show ?thesis by (simp add: max.commute)
qed

lemma spec_streak_counters_snoc:
  "spec_streak_counters (ts @ [t]) =
     (if profit_loss t > 0 then (fst (spec_streak_counters ts) + 1, 0)
      else (0, snd (spec_streak_counters ts) + 1))"
  by (simp add: spec_streak_counters_def split: prod.splits)

lemma streak_loop_invariant:
  "forEach (streak_step exact_runtime) ts streak_init = Some st \<Longrightarrow>
     var_currentWinStreak st = fst (spec_streak_counters ts) \<and>
     var_currentLossStreak st = snd (spec_streak_counters ts) \<and>
     var_bestStreak st = Max ((\<lambda>k. fst (spec_streak_counters (take k ts))) ` {..length ts}) \<and>
     var_worstStreak st = Max ((\<lambda>k. snd (spec_streak_counters (take k ts))) ` {..length ts})"
proof (induction ts arbitrary: st rule: rev_induct)
  case Nil
  then show ?case by (auto simp: streak_init_def exact_ops spec_streak_counters_def)
next
  case (snoc t ts)
  from snoc.prems obtain s where s: "forEach (streak_step exact_runtime) ts streak_init = Some s"
    and step: "streak_step exact_runtime s t = Some st"
    by (auto simp: forEach_snoc split: option.splits)
  note ih = snoc.IH[OF s]
  have mw: "Max ((\<lambda>k. fst (spec_streak_counters (take k (ts @ [t])))) ` {..length (ts @ [t])})
      = max (Max ((\<lambda>k. fst (spec_streak_counters (take k ts))) ` {..length ts}))
            (fst (spec_streak_counters (ts @ [t])))"
    by (rule Max_prefix_snoc[where g = "\<lambda>xs. fst (spec_streak_counters xs)"])
  have ml: "Max ((\<lambda>k. snd (spec_streak_counters (take k (ts @ [t])))) ` {..length (ts @ [t])})
      = max (Max ((\<lambda>k. snd (spec_streak_counters (take k ts))) ` {..length ts}))
            (snd (spec_streak_counters (ts @ [t])))"
    by (rule Max_prefix_snoc[where g = "\<lambda>xs. snd (spec_streak_counters xs)"])
  show ?case
  proof (cases "profit_loss t > 0")
    case True
    with step have "st = s\<lparr>var_currentWinStreak := var_currentWinStreak s + 1,
        var_currentLossStreak := 0,
        var_bestStreak := max (var_bestStreak s) (var_currentWinStreak s + 1)\<rparr>"
      by (simp add: streak_step_def exact_ops Let_def)
    with ih True show ?thesis
      unfolding mw ml by (simp add: spec_streak_counters_snoc)
  next
    case False
    with step have "st = s\<lparr>var_currentLossStreak := var_currentLossStreak s + 1,
        var_currentWinStreak := 0,
        var_worstStreak := max (var_worstStreak s) (var_currentLossStreak s + 1)\<rparr>"
      by (simp add: streak_step_def exact_ops Let_def)
    with ih False show ?thesis
      unfolding mw ml by (simp add: spec_streak_counters_snoc)
  qed
qed

subsection \<open>The drawdown walk in any arithmetic\<close>

lemma walk_prefix_snoc:
  "foldl (\<lambda>b k. if gt (g (take k (xs @ [x]))) b then g (take k (xs @ [x])) else b) z
         [1..<Suc (length (xs @ [x]))]
   = (let b = foldl (\<lambda>b k. if gt (g (take k xs)) b then g (take k xs) else b) z
                    [1..<Suc (length xs)]
      in if gt (g (xs @ [x])) b then g (xs @ [x]) else b)"
proof -
  have same: "foldl (\<lambda>b k. if gt (g (take k (xs @ [x]))) b then g (take k (xs @ [x])) else b) z
                [1..<Suc (length xs)]
            = foldl (\<lambda>b k. if gt (g (take k xs)) b then g (take k xs) else b) z
                [1..<Suc (length xs)]"
    by (rule foldl_cong) auto
  have "[1..<Suc (length (xs @ [x]))] = [1..<Suc (length xs)] @ [Suc (length xs)]"
    by simp
  then show ?thesis
    by (simp only: foldl_append same Let_def) simp
qed

lemma spec_running_snoc:
  "spec_running rt (ts @ [t]) = n_add rt (spec_running rt ts) (profit_loss t)"
  by (simp add: spec_running_def)

lemma spec_peak_snoc:
  "spec_peak rt (ts @ [t]) =
     (if n_gt rt (spec_running rt (ts @ [t])) (spec_peak rt ts)
      then spec_running rt (ts @ [t]) else spec_peak rt ts)"
  unfolding spec_peak_def
  using walk_prefix_snoc[where g = "spec_running rt" and gt = "n_gt rt" and z = "n_lit rt 0"
      and xs = ts and x = t]
  by (simp only: Let_def)

lemma spec_best_snoc:
  "spec_best rt (ts @ [t]) =
     (if n_gt rt (spec_drawdown rt (ts @ [t])) (spec_best rt ts)
      then spec_drawdown rt (ts @ [t]) else spec_best rt ts)"
  unfolding spec_best_def
  using walk_prefix_snoc[where g = "spec_drawdown rt" and gt = "n_gt rt" and z = "n_lit rt 0"
      and xs = ts and x = t]
  by (simp only: Let_def)

lemma drawdown_step_cases:
  assumes "drawdown_step rt s t = Some v"
  defines "r \<equiv> n_add rt (var_runningPnL s) (profit_loss t)"
  defines "p \<equiv> (if n_gt rt r (var_peak s) then r else var_peak s)"
  defines "d \<equiv> n_sub rt p r"
  shows "var_runningPnL v = r \<and> var_peak v = p \<and>
     (if n_gt rt d (var_maxDrawdownAmount s)
      then var_maxDrawdownAmount v = d \<and>
           Some (var_maxDrawdown v) =
             (if n_gt rt p (n_lit rt 0)
              then map_option (\<lambda>q. n_mul rt q (n_lit rt 100)) (n_div rt d p)
              else Some (n_lit rt 0))
      else var_maxDrawdownAmount v = var_maxDrawdownAmount s \<and>
           var_maxDrawdown v = var_maxDrawdown s)"
  using assms(1) unfolding r_def p_def d_def
  by (auto simp: drawdown_step_def Let_def bind_eq_Some_conv split: if_splits)

lemma drawdown_walk_invariant:
  "forEach (drawdown_step rt) ts (drawdown_init rt) = Some v \<Longrightarrow>
     var_runningPnL v = spec_running rt ts \<and>
     var_peak v = spec_peak rt ts \<and>
     var_maxDrawdownAmount v = spec_best rt ts \<and>
     (\<exists>k\<le>length ts.
         (\<forall>j. k < j \<and> j \<le> length ts \<longrightarrow>
              \<not> n_gt rt (spec_drawdown rt (take j ts)) (var_maxDrawdownAmount v)) \<and>
         (if k = 0
          then var_maxDrawdownAmount v = n_lit rt 0 \<and> var_maxDrawdown v = n_lit rt 0
          else n_gt rt (spec_drawdown rt (take k ts)) (spec_best rt (take (k - 1) ts)) \<and>
               var_maxDrawdownAmount v = spec_drawdown rt (take k ts) \<and>
               Some (var_maxDrawdown v) = spec_percent rt (take k ts)))"
proof (induction ts arbitrary: v rule: rev_induct)
  case Nil
  then have "v = drawdown_init rt" by simp
  then show ?case
    by (simp add: drawdown_init_def spec_running_def spec_peak_def spec_best_def)
next
  case (snoc t ts)
  from snoc.prems obtain s where s: "forEach (drawdown_step rt) ts (drawdown_init rt) = Some s"
    and step: "drawdown_step rt s t = Some v"
    by (auto simp: forEach_snoc split: option.splits)
  from snoc.IH[OF s] obtain k where
    run: "var_runningPnL s = spec_running rt ts" and
    pk: "var_peak s = spec_peak rt ts" and
    amt: "var_maxDrawdownAmount s = spec_best rt ts" and
    k: "k \<le> length ts" and
    later: "\<forall>j. k < j \<and> j \<le> length ts \<longrightarrow>
              \<not> n_gt rt (spec_drawdown rt (take j ts)) (var_maxDrawdownAmount s)" and
    rec: "if k = 0
          then var_maxDrawdownAmount s = n_lit rt 0 \<and> var_maxDrawdown s = n_lit rt 0
          else n_gt rt (spec_drawdown rt (take k ts)) (spec_best rt (take (k - 1) ts)) \<and>
               var_maxDrawdownAmount s = spec_drawdown rt (take k ts) \<and>
               Some (var_maxDrawdown s) = spec_percent rt (take k ts)"
    by blast
  have r: "n_add rt (var_runningPnL s) (profit_loss t) = spec_running rt (ts @ [t])"
    by (simp add: spec_running_snoc run)
  have p: "(if n_gt rt (spec_running rt (ts @ [t])) (var_peak s)
            then spec_running rt (ts @ [t]) else var_peak s) = spec_peak rt (ts @ [t])"
    by (simp add: spec_peak_snoc pk)
  have d: "n_sub rt (spec_peak rt (ts @ [t])) (spec_running rt (ts @ [t]))
             = spec_drawdown rt (ts @ [t])"
    by (simp add: spec_drawdown_def)
  note st = drawdown_step_cases[OF step, unfolded r p d]
  have pre: "take j (ts @ [t]) = take j ts" if "j \<le> length ts" for j
    using that by simp
  have base: "var_runningPnL v = spec_running rt (ts @ [t])"
    "var_peak v = spec_peak rt (ts @ [t])"
    using st by simp_all
  show ?case
  proof (cases "n_gt rt (spec_drawdown rt (ts @ [t])) (var_maxDrawdownAmount s)")
    case True
    with st have v: "var_maxDrawdownAmount v = spec_drawdown rt (ts @ [t])"
      "Some (var_maxDrawdown v) = spec_percent rt (ts @ [t])"
      by (simp_all add: spec_percent_def)
    have best: "var_maxDrawdownAmount v = spec_best rt (ts @ [t])"
      using True v(1) by (simp add: spec_best_snoc amt)
    have "\<exists>k\<le>length (ts @ [t]).
         (\<forall>j. k < j \<and> j \<le> length (ts @ [t]) \<longrightarrow>
              \<not> n_gt rt (spec_drawdown rt (take j (ts @ [t]))) (var_maxDrawdownAmount v)) \<and>
         (if k = 0
          then var_maxDrawdownAmount v = n_lit rt 0 \<and> var_maxDrawdown v = n_lit rt 0
          else n_gt rt (spec_drawdown rt (take k (ts @ [t])))
                 (spec_best rt (take (k - 1) (ts @ [t]))) \<and>
               var_maxDrawdownAmount v = spec_drawdown rt (take k (ts @ [t])) \<and>
               Some (var_maxDrawdown v) = spec_percent rt (take k (ts @ [t])))"
    proof (intro exI[of _ "Suc (length ts)"] conjI)
      show "Suc (length ts) \<le> length (ts @ [t])" by simp
      show "\<forall>j. Suc (length ts) < j \<and> j \<le> length (ts @ [t]) \<longrightarrow>
              \<not> n_gt rt (spec_drawdown rt (take j (ts @ [t]))) (var_maxDrawdownAmount v)"
        by auto
      show "if Suc (length ts) = 0
          then var_maxDrawdownAmount v = n_lit rt 0 \<and> var_maxDrawdown v = n_lit rt 0
          else n_gt rt (spec_drawdown rt (take (Suc (length ts)) (ts @ [t])))
                 (spec_best rt (take (Suc (length ts) - 1) (ts @ [t]))) \<and>
               var_maxDrawdownAmount v = spec_drawdown rt (take (Suc (length ts)) (ts @ [t])) \<and>
               Some (var_maxDrawdown v) = spec_percent rt (take (Suc (length ts)) (ts @ [t]))"
        using True v amt by simp
    qed
    with base best show ?thesis by blast
  next
    case False
    with st have v: "var_maxDrawdownAmount v = var_maxDrawdownAmount s"
      "var_maxDrawdown v = var_maxDrawdown s"
      by simp_all
    have best: "var_maxDrawdownAmount v = spec_best rt (ts @ [t])"
      using False v(1) by (simp add: spec_best_snoc amt)
    have "\<exists>k\<le>length (ts @ [t]).
         (\<forall>j. k < j \<and> j \<le> length (ts @ [t]) \<longrightarrow>
              \<not> n_gt rt (spec_drawdown rt (take j (ts @ [t]))) (var_maxDrawdownAmount v)) \<and>
         (if k = 0
          then var_maxDrawdownAmount v = n_lit rt 0 \<and> var_maxDrawdown v = n_lit rt 0
          else n_gt rt (spec_drawdown rt (take k (ts @ [t])))
                 (spec_best rt (take (k - 1) (ts @ [t]))) \<and>
               var_maxDrawdownAmount v = spec_drawdown rt (take k (ts @ [t])) \<and>
               Some (var_maxDrawdown v) = spec_percent rt (take k (ts @ [t])))"
    proof (intro exI[of _ k] conjI)
      show "k \<le> length (ts @ [t])" using k by simp
      show "\<forall>j. k < j \<and> j \<le> length (ts @ [t]) \<longrightarrow>
              \<not> n_gt rt (spec_drawdown rt (take j (ts @ [t]))) (var_maxDrawdownAmount v)"
      proof (intro allI impI)
        fix j assume j: "k < j \<and> j \<le> length (ts @ [t])"
        show "\<not> n_gt rt (spec_drawdown rt (take j (ts @ [t]))) (var_maxDrawdownAmount v)"
        proof (cases "j \<le> length ts")
          case True
          with later j show ?thesis unfolding pre[OF True] v(1) by blast
        next
          case nle: False
          with j have "j = Suc (length ts)" by simp
          with False show ?thesis by (simp add: v(1))
        qed
      qed
      have k1: "k - 1 \<le> length ts" using k by simp
      show "if k = 0
          then var_maxDrawdownAmount v = n_lit rt 0 \<and> var_maxDrawdown v = n_lit rt 0
          else n_gt rt (spec_drawdown rt (take k (ts @ [t])))
                 (spec_best rt (take (k - 1) (ts @ [t]))) \<and>
               var_maxDrawdownAmount v = spec_drawdown rt (take k (ts @ [t])) \<and>
               Some (var_maxDrawdown v) = spec_percent rt (take k (ts @ [t]))"
        unfolding pre[OF k] pre[OF k1] v using rec by simp
    qed
    with base best show ?thesis by blast
  qed
qed

lemma calculateUserAnalytics_drawdown_fields:
  assumes "calculateUserAnalytics rt sessions trades = Some r"
  shows "\<exists>dd. forEach (drawdown_step rt) trades (drawdown_init rt) = Some dd \<and>
      maxDrawdownAmount r = var_maxDrawdownAmount dd \<and> maxDrawdown r = var_maxDrawdown dd"
proof (cases "trades = []")
  case True
  with assms show ?thesis
    by (auto simp: calculateUserAnalytics_def drawdown_init_def)
next
  case False
  with assms show ?thesis
    by (auto simp: calculateUserAnalytics_def Let_def bind_eq_Some_conv)
qed

subsection \<open>Rounding to binary64\<close>

lemma rte_of_int: "rte (of_int n) = n"
  by (simp add: rte_def)

lemma log2_powi: "log 2 ((2::real) powi e) = of_int e"
proof -
  have "(2::real) powi e = 2 powr (of_int e)" by (simp add: powr_real_of_int')
  then show ?thesis by simp
qed

lemma floor_log2_eq:
  assumes "x \<noteq> 0" "2 powi e \<le> \<bar>x\<bar>" "\<bar>x::real\<bar> < 2 powi (e + 1)"
  shows "\<lfloor>log 2 \<bar>x\<bar>\<rfloor> = e"
proof -
  have pos: "0 < \<bar>x\<bar>" using assms(1) by simp
  have "log 2 (2 powi e) \<le> log 2 \<bar>x\<bar>"
    using assms(2) pos by simp
  moreover have "log 2 \<bar>x\<bar> < log 2 (2 powi (e + 1))"
    using assms(3) pos by simp
  ultimately show ?thesis
    by (simp add: floor_eq_iff log2_powi)
qed

lemma floor_log2_le:
  assumes "x \<noteq> 0" "\<bar>x::real\<bar> < 2 powi (b + 1)"
  shows "\<lfloor>log 2 \<bar>x\<bar>\<rfloor> \<le> b"
proof -
  have pos: "0 < \<bar>x\<bar>" using assms(1) by simp
  have "log 2 \<bar>x\<bar> < log 2 (2 powi (b + 1))"
    using assms(2) pos by simp
  then have "log 2 \<bar>x\<bar> < of_int (b + 1)" by (simp only: log2_powi)
  then show ?thesis by (simp add: floor_le_iff)
qed

lemma expo_eq:
  assumes "x \<noteq> 0" "2 powi e \<le> \<bar>x\<bar>" "\<bar>x\<bar> < 2 powi (e + 1)" "- 1022 \<le> e"
  shows "expo x = e"
  using floor_log2_eq[OF assms(1-3)] assms(4) by (simp add: expo_def)

lemma expo_le:
  assumes "x \<noteq> 0" "\<bar>x\<bar> < 2 powi (b + 1)" "- 1022 \<le> b"
  shows "expo x \<le> b"
  using floor_log2_le[OF assms(1,2)] assms(3) by (simp add: expo_def)

lemma rnd_eval:
  assumes "x \<noteq> 0" "2 powi e \<le> \<bar>x\<bar>" "\<bar>x\<bar> < 2 powi (e + 1)" "- 1022 \<le> e"
  shows "rnd x = (let y = of_int (rte (x / 2 powi (e - 52))) * 2 powi (e - 52)
                  in if 2 powi 1024 \<le> \<bar>y\<bar> then (if 0 < x then PInf else NInf) else Fin y)"
  using assms(1) by (simp add: rnd_def ulp_def expo_eq[OF assms])

lemma rnd_exact:
  assumes m: "\<bar>m\<bar> < 2 ^ 53" and k: "- 1074 \<le> k"
    and fin: "\<bar>of_int m * 2 powi k\<bar> < (2::real) powi 1024"
  shows "rnd (of_int m * 2 powi k) = Fin (of_int m * 2 powi k)"
proof (cases "m = 0")
  case True
  then show ?thesis by (simp add: rnd_def)
next
  case False
  define x :: real where "x = of_int m * 2 powi k"
  have x0: "x \<noteq> 0" using False by (simp add: x_def)
  have "\<bar>x\<bar> = of_int \<bar>m\<bar> * 2 powi k" by (simp add: x_def abs_mult)
  also have "\<dots> < 2 ^ 53 * 2 powi k"
  proof -
    have "(of_int \<bar>m\<bar> :: real) < of_int (2 ^ 53)" using m by (simp only: of_int_less_iff)
    then show ?thesis by simp
  qed
  also have "\<dots> = 2 powi (k + 52 + 1)"
    by (simp add: power_int_add)
  finally have "\<bar>x\<bar> < 2 powi (k + 52 + 1)" .
  then have le: "expo x \<le> k + 52" using x0 k by (intro expo_le) simp_all
  define d where "d = nat (k - (expo x - 52))"
  have dk: "k = (expo x - 52) + int d" using le by (simp add: d_def)
  have "x / ulp x = of_int m * (2 powi k / 2 powi (expo x - 52))"
    by (simp add: x_def ulp_def)
  also have "2 powi k / 2 powi (expo x - 52) = (2::real) ^ d"
    by (subst dk) (simp add: power_int_add)
  finally have q: "x / ulp x = of_int (m * 2 ^ d)" by simp
  have u0: "ulp x \<noteq> 0" by (simp add: ulp_def)
  have "of_int (rte (x / ulp x)) * ulp x = x"
    unfolding q rte_of_int using q u0 by (simp add: field_simps)
  then show ?thesis using x0 fin by (simp add: rnd_def Let_def x_def[symmetric])
qed

lemma rnd_of_int:
  assumes "\<bar>n\<bar> < 2 ^ 53"
  shows "rnd (of_int n) = Fin (of_int n)"
proof -
  have "\<bar>of_int n :: real\<bar> < of_int (2 ^ 53)"
    using assms by (simp only: of_int_abs[symmetric] of_int_less_iff)
  also have "\<dots> < 2 powi 1024" by simp
  finally have "\<bar>of_int n * 2 powi 0\<bar> < (2::real) powi 1024" by simp
  from rnd_exact[OF assms _ this] show ?thesis by simp
qed

lemma d_lit_small: "n < 2 ^ 53 \<Longrightarrow> d_lit n = Fin (real n)"
  using rnd_of_int[of "int n"] by (simp add: d_lit_def)

lemma binary64_ops:
  "n_lit (binary64_runtime L) n = d_lit n"
  "n_add (binary64_runtime L) a b = d_add a b"
  "n_sub (binary64_runtime L) a b = d_sub a b"
  "n_mul (binary64_runtime L) a b = d_mul a b"
  "n_div (binary64_runtime L) a b = Some (d_div a b)"
  "n_pow (binary64_runtime L) a k = d_pow a k"
  "n_sqrt (binary64_runtime L) a = Some (d_sqrt a)"
  "n_abs (binary64_runtime L) a = d_abs a"
  "n_gt (binary64_runtime L) a b = d_gt a b"
  "n_lt (binary64_runtime L) a b = d_lt a b"
  "n_max (binary64_runtime L) xs = d_math_max L xs"
  by (simp_all add: binary64_runtime_def)

lemma rnd_dyadic:
  assumes m: "\<bar>m\<bar> < 2 ^ 53" and k: "k \<le> 1074"
  shows "rnd (of_int m / 2 ^ k) = Fin (of_int m / 2 ^ k)"
proof -
  have eq: "(of_int m :: real) / 2 ^ k = of_int m * 2 powi (- int k)"
    by (simp add: power_int_minus divide_inverse)
  have "\<bar>of_int m :: real\<bar> < of_int (2 ^ 53)"
    using m by (simp only: of_int_abs[symmetric] of_int_less_iff)
  then have "\<bar>of_int m :: real\<bar> < 2 ^ 53" by simp
  moreover have "\<bar>(of_int m :: real) / 2 ^ k\<bar> \<le> \<bar>of_int m\<bar>"
  proof -
    have "(1::real) \<le> 2 ^ k" by simp
    then have "\<bar>of_int m :: real\<bar> * 1 \<le> \<bar>of_int m\<bar> * 2 ^ k"
      by (intro mult_left_mono) simp_all
    then show ?thesis by (simp add: abs_divide field_simps)
  qed
  moreover have "(2::real) ^ 53 < 2 powi 1024" by simp
  ultimately have "\<bar>(of_int m :: real) / 2 ^ k\<bar> < 2 powi 1024" by linarith
  then have fin: "\<bar>of_int m * 2 powi (- int k)\<bar> < (2::real) powi 1024"
    by (simp only: eq)
  have "- 1074 \<le> - int k" using k by simp
  from rnd_exact[OF m this fin] show ?thesis by (simp only: eq)
qed

lemma rnd_near:
  assumes "x \<noteq> 0" "2 powi e \<le> \<bar>x\<bar>" "\<bar>x\<bar> < 2 powi (e + 1)" "- 1022 \<le> e"
    and "rte (x / 2 powi (e - 52)) = m"
    and "\<bar>of_int m * 2 powi (e - 52)\<bar> < (2::real) powi 1024"
  shows "rnd x = Fin (of_int m * 2 powi (e - 52))"
  using assms(5,6) unfolding rnd_eval[OF assms(1-4)] by (simp add: Let_def)

lemma rnd_tenth: "rnd (1 / 10) = Fin (7205759403792794 / 2 ^ 56)"
  using rnd_near[of "1 / 10" "- 4" 7205759403792794]
  by (simp add: rte_def power_int_minus)


lemma streak_loop_total_any: "\<exists>st. forEach (streak_step rt) trades v = Some st"
  by (rule forEach_total) (simp add: streak_step_def Let_def)

lemma binary64_drawdown_total:
  "\<exists>dd. forEach (drawdown_step (binary64_runtime L)) trades v = Some dd"
  by (rule forEach_total) (simp add: drawdown_step_def binary64_ops Let_def)

lemma calculateUserAnalytics_binary64:
  assumes ne: "trades \<noteq> []" and len: "length trades \<le> L"
  shows "\<exists>dd r.
    forEach (drawdown_step (binary64_runtime L)) trades (drawdown_init (binary64_runtime L))
      = Some dd \<and>
    calculateUserAnalytics (binary64_runtime L) sessions trades = Some r \<and>
    maxDrawdownAmount r = var_maxDrawdownAmount dd \<and>
    maxDrawdown r = var_maxDrawdown dd \<and>
    riskLevel r = (if d_gt (var_maxDrawdown dd) (d_lit 20) then High
                   else if d_gt (var_maxDrawdown dd) (d_lit 10) then Moderate else Low) \<and>
    sharpeRatio r =
      (let n = d_lit (length trades);
           avgReturn = d_div (foldl d_add (d_lit 0) (map roi trades)) n;
           stdDev = d_sqrt (d_div (foldl (\<lambda>sum r. d_add sum (d_pow (d_sub r avgReturn) 2))
                                         (d_lit 0) (map roi trades)) n)
       in if d_gt stdDev (d_lit 0) then d_div avgReturn stdDev else d_lit 0)"
proof -
  obtain dd where dd: "forEach (drawdown_step (binary64_runtime L)) trades
      (drawdown_init (binary64_runtime L)) = Some dd"
    using binary64_drawdown_total by blast
  obtain st where st: "forEach (streak_step (binary64_runtime L)) trades streak_init = Some st"
    using streak_loop_total_any by blast
  have mx: "d_math_max L (map (\<lambda>t. d_abs (profit_loss t)) trades)
      = Some (foldl d_max2 NInf (map (\<lambda>t. d_abs (profit_loss t)) trades))"
    using len by (simp add: d_math_max_def)
  have l0: "length trades \<noteq> 0" using ne by simp
  show ?thesis
    unfolding calculateUserAnalytics_def binary64_ops
    using l0 dd st mx
    by (simp add: Let_def if_Some_Some split del: if_split cong: if_cong)
qed

lemma calculateUserAnalytics_binary64_RangeError:
  assumes "L < length trades"
  shows "calculateUserAnalytics (binary64_runtime L) sessions trades = None"
proof -
  obtain dd where dd: "forEach (drawdown_step (binary64_runtime L)) trades
      (drawdown_init (binary64_runtime L)) = Some dd"
    using binary64_drawdown_total by blast
  obtain st where st: "forEach (streak_step (binary64_runtime L)) trades streak_init = Some st"
    using streak_loop_total_any by blast
  have mx: "d_math_max L (map (\<lambda>t. d_abs (profit_loss t)) trades) = None"
    using assms by (simp add: d_math_max_def)
  have l0: "length trades \<noteq> 0" using assms by auto
  show ?thesis
    unfolding calculateUserAnalytics_def binary64_ops
    using l0 dd st mx
    by (simp add: Let_def if_Some_Some split del: if_split cong: if_cong)
qed

lemma d_lit_0: "d_lit 0 = Fin 0"
  by (simp add: d_lit_def rnd_def)

lemma d_lit_2: "d_lit (Suc (Suc 0)) = Fin 2"
  using rnd_of_int[of 2] by (simp add: d_lit_def)

lemma d_lit_3: "d_lit (Suc (Suc (Suc 0))) = Fin 3"
  using rnd_of_int[of 3] by (simp add: d_lit_def)

lemma d_lit_numeral: "numeral k < (2::nat) ^ 53 \<Longrightarrow> d_lit (numeral k) = Fin (numeral k)"
  using d_lit_small[of "numeral k"] by simp

lemma sharpe_three_tenths:
  "(let n = d_lit (Suc (Suc (Suc 0)));
        avgReturn = d_div (foldl d_add (d_lit 0) [rnd (1 / 10), rnd (1 / 10), rnd (1 / 10)]) n;
        stdDev = d_sqrt (d_div (foldl (\<lambda>sum r. d_add sum (d_pow (d_sub r avgReturn) 2))
                     (d_lit 0) [rnd (1 / 10), rnd (1 / 10), rnd (1 / 10)]) n)
    in if d_gt stdDev (d_lit 0) then d_div avgReturn stdDev else d_lit 0)
   = Fin 7205759403792795"
proof -
  have s1: "d_add (Fin 0) (Fin (7205759403792794 / 2 ^ 56)) = Fin (7205759403792794 / 2 ^ 56)"
    using rnd_dyadic[of 7205759403792794 56] by simp
  have s2: "d_add (Fin (7205759403792794 / 2 ^ 56)) (Fin (7205759403792794 / 2 ^ 56))
      = Fin (7205759403792794 / 2 ^ 55)"
    using rnd_dyadic[of 7205759403792794 55] by simp
  have s3: "d_add (Fin (7205759403792794 / 2 ^ 55)) (Fin (7205759403792794 / 2 ^ 56))
      = Fin (5404319552844596 / 2 ^ 54)"
    using rnd_near[of "7205759403792794 / 2 ^ 55 + 7205759403792794 / 2 ^ 56" "- 2"
        5404319552844596]
    by (simp add: rte_def power_int_minus)
  have av: "d_div (Fin (5404319552844596 / 2 ^ 54)) (Fin 3) = Fin (7205759403792795 / 2 ^ 56)"
    using rnd_near[of "5404319552844596 / 2 ^ 54 / 3" "- 4" 7205759403792795]
    by (simp add: rte_def power_int_minus)
  have df: "d_sub (Fin (7205759403792794 / 2 ^ 56)) (Fin (7205759403792795 / 2 ^ 56))
      = Fin (- 1 / 2 ^ 56)"
    using rnd_dyadic[of "- 1" 56] by (simp add: d_sub_def)
  have pw: "d_pow (Fin (- 1 / 2 ^ 56)) 2 = Fin (1 / 2 ^ 112)"
    using rnd_dyadic[of 1 112] by (simp add: power2_eq_square)
  have v1: "d_add (Fin 0) (Fin (1 / 2 ^ 112)) = Fin (1 / 2 ^ 112)"
    using rnd_dyadic[of 1 112] by simp
  have v2: "d_add (Fin (1 / 2 ^ 112)) (Fin (1 / 2 ^ 112)) = Fin (1 / 2 ^ 111)"
    using rnd_dyadic[of 1 111] by simp
  have v3: "d_add (Fin (1 / 2 ^ 111)) (Fin (1 / 2 ^ 112)) = Fin (3 / 2 ^ 112)"
    using rnd_dyadic[of 3 112] by simp
  have vr: "d_div (Fin (3 / 2 ^ 112)) (Fin 3) = Fin (1 / 2 ^ 112)"
    using rnd_dyadic[of 1 112] by simp
  have e: "(2::real) ^ 112 = (2 ^ 56)\<^sup>2"
    by (subst power_mult[symmetric]) simp
  have sqv: "sqrt (1 / 2 ^ 112) = (1 / 2 ^ 56 :: real)"
    by (simp only: e real_sqrt_divide real_sqrt_one real_sqrt_abs) simp
  have "d_sqrt (Fin (1 / 2 ^ 112)) = rnd (sqrt (1 / 2 ^ 112))" by simp
  also have "\<dots> = rnd (1 / 2 ^ 56)" by (simp only: sqv)
  also have "\<dots> = Fin (1 / 2 ^ 56)" using rnd_dyadic[of 1 56] by simp
  finally have sq: "d_sqrt (Fin (1 / 2 ^ 112)) = Fin (1 / 2 ^ 56)" .
  have gt: "d_gt (Fin (1 / 2 ^ 56)) (Fin 0)" by simp
  have sh: "d_div (Fin (7205759403792795 / 2 ^ 56)) (Fin (1 / 2 ^ 56)) = Fin 7205759403792795"
    using rnd_of_int[of 7205759403792795] by simp
  show ?thesis
    by (simp only: Let_def foldl.simps rnd_tenth d_lit_0 d_lit_3
          s1 s2 s3 av df pw v1 v2 v3 vr sq gt sh if_True)
qed

lemma rnd_0: "rnd 0 = Fin 0"
  by (simp add: rnd_def)

lemma rnd_numeral: "numeral k < (2::int) ^ 53 \<Longrightarrow> rnd (numeral k) = Fin (numeral k)"
  using rnd_of_int[of "numeral k"] by simp

lemma rnd_neg_numeral:
  "numeral k < (2::int) ^ 53 \<Longrightarrow> rnd (- numeral k) = Fin (- numeral k)"
  using rnd_of_int[of "- numeral k"] by simp

lemma drawdown_example_binary64:
  "forEach (drawdown_step (binary64_runtime L))
     (map (\<lambda>p. \<lparr>profit_loss = p, roi = f p, entry_side = g p\<rparr>) [Fin 10, Fin (- 20), Fin 5])
     (drawdown_init (binary64_runtime L))
   = Some \<lparr>var_runningPnL = Fin (- 5), var_peak = Fin 10,
           var_maxDrawdown = Fin 200, var_maxDrawdownAmount = Fin 20\<rparr>"
  by (simp add: drawdown_step_def drawdown_init_def binary64_ops Let_def d_lit_0 d_lit_numeral
        d_sub_def rnd_numeral rnd_neg_numeral rnd_0)

lemma rnd_overflow: "rnd (2 ^ 1023 + 2 ^ 1023) = PInf"
proof -
  have x: "(2::real) ^ 1023 + 2 ^ 1023 = 2 powi 1024" by simp
  have q: "(2::real) powi 1024 / 2 powi (1024 - 52) = of_int (2 ^ 52)"
    by (simp add: power_int_diff)
  have "rte ((2::real) powi 1024 / 2 powi (1024 - 52)) = 2 ^ 52"
    unfolding q by (rule rte_of_int)
  moreover have "of_int (2 ^ 52) * 2 powi (1024 - 52) = (2::real) powi 1024"
    by simp
  ultimately show ?thesis
    unfolding x using rnd_eval[of "2 powi 1024" 1024] by (simp add: Let_def)
qed

lemma sharpe_overflow:
  "(let n = d_lit (Suc (Suc 0));
        avgReturn = d_div (foldl d_add (d_lit 0) [Fin (2 ^ 1023), Fin (2 ^ 1023)]) n;
        stdDev = d_sqrt (d_div (foldl (\<lambda>sum r. d_add sum (d_pow (d_sub r avgReturn) 2))
                     (d_lit 0) [Fin (2 ^ 1023), Fin (2 ^ 1023)]) n)
    in if d_gt stdDev (d_lit 0) then d_div avgReturn stdDev else d_lit 0)
   = NaN"
proof -
  have s1: "d_add (Fin 0) (Fin (2 ^ 1023)) = Fin (2 ^ 1023)"
    using rnd_exact[of 1 1023] by simp
  have s2: "d_add (Fin (2 ^ 1023)) (Fin (2 ^ 1023)) = PInf"
    by (simp only: d_add.simps rnd_overflow)
  have av: "d_div PInf (Fin 2) = PInf" by simp
  have df: "d_sub (Fin (2 ^ 1023)) PInf = NInf" by (simp add: d_sub_def)
  have pw: "d_pow NInf 2 = PInf" by simp
  have v1: "d_add (Fin 0) PInf = PInf" by simp
  have v2: "d_add PInf PInf = PInf" by simp
  have sq: "d_sqrt PInf = PInf" by simp
  have gt: "d_gt PInf (Fin 0)" by simp
  have sh: "d_div PInf PInf = NaN" by simp
  show ?thesis
    by (simp only: Let_def foldl.simps d_lit_0 d_lit_2 s1 s2 av df pw v1 v2 sq gt sh if_True)
qed

lemma rnd_1: "rnd 1 = Fin 1"
  using rnd_of_int[of 1] by simp

lemma rnd_minus_three_tenths: "rnd (- (3 / 10)) = Fin (- (5404319552844595 / 2 ^ 54))"
  using rnd_near[of "- (3 / 10)" "- 2" "- 5404319552844595"]
  by (simp add: rte_def power_int_minus)

lemma drawdown_near_tie_binary64:
  "forEach (drawdown_step (binary64_runtime L))
     (map (\<lambda>p. \<lparr>profit_loss = p, roi = f p, entry_side = g p\<rparr>)
          [Fin 1, rnd (- (3 / 10)), Fin 10, rnd (- (3 / 10))])
     (drawdown_init (binary64_runtime L))
   = Some \<lparr>var_runningPnL = Fin (5854679515581644 / 2 ^ 49),
           var_peak = Fin (6023564501608038 / 2 ^ 49),
           var_maxDrawdown = Fin (6313457421547440 / 2 ^ 51),
           var_maxDrawdownAmount = Fin (168884986026394 / 2 ^ 49)\<rparr>"
proof -
  have B: "rnd (1 + - (5404319552844595 / 2 ^ 54)) = Fin (6305039478318694 / 2 ^ 53)"
    using rnd_near[of "1 + - (5404319552844595 / 2 ^ 54)" "- 1" 6305039478318694]
    by (simp add: rte_def power_int_minus)
  have C: "rnd (5404319552844596 / 2 ^ 54) = Fin (5404319552844596 / 2 ^ 54)"
    using rnd_dyadic[of 5404319552844596 54] by simp
  have E: "rnd (5404319552844596 / 2 ^ 54 * 100) = Fin (8444249301319681 / 2 ^ 48)"
    using rnd_near[of "5404319552844596 / 2 ^ 54 * 100" 4 8444249301319681]
    by (simp add: rte_def power_int_minus)
  have F: "rnd (6305039478318694 / 2 ^ 53 + 10) = Fin (6023564501608038 / 2 ^ 49)"
    using rnd_near[of "6305039478318694 / 2 ^ 53 + 10" 3 6023564501608038]
    by (simp add: rte_def power_int_minus)
  have H: "rnd (6023564501608038 / 2 ^ 49 + - (5404319552844595 / 2 ^ 54))
      = Fin (5854679515581644 / 2 ^ 49)"
    using rnd_near[of "6023564501608038 / 2 ^ 49 + - (5404319552844595 / 2 ^ 54)" 3
        5854679515581644]
    by (simp add: rte_def power_int_minus)
  have I: "rnd (168884986026394 / 2 ^ 49) = Fin (168884986026394 / 2 ^ 49)"
    using rnd_dyadic[of 168884986026394 49] by simp
  have J: "rnd (168884986026394 / 2 ^ 49 / (6023564501608038 / 2 ^ 49))
      = Fin (8081225499580723 / 2 ^ 58)"
    using rnd_near[of "168884986026394 / 2 ^ 49 / (6023564501608038 / 2 ^ 49)" "- 6"
        8081225499580723]
    by (simp add: rte_def power_int_minus)
  have K: "rnd (8081225499580723 / 2 ^ 58 * 100) = Fin (6313457421547440 / 2 ^ 51)"
    using rnd_near[of "8081225499580723 / 2 ^ 58 * 100" 1 6313457421547440]
    by (simp add: rte_def power_int_minus)
  show ?thesis
    by (simp add: drawdown_step_def drawdown_init_def binary64_ops Let_def d_lit_0 d_lit_numeral
          d_sub_def rnd_0 rnd_1 rnd_minus_three_tenths
          B[simplified] C[simplified] E[simplified] F[simplified] H[simplified]
          I[simplified] J[simplified] K[simplified])
qed

text \<open>The same profit-and-loss sequence in exact arithmetic: the two drawdowns are both
  \<open>3 / 10\<close>, the second does not exceed the first, and the percentage stays 30.\<close>

lemma drawdown_tie_exact:
  "forEach (drawdown_step exact_runtime)
     (map (\<lambda>p. \<lparr>profit_loss = p, roi = f p, entry_side = g p\<rparr>) [1, - (3 / 10), 10, - (3 / 10)])
     (drawdown_init exact_runtime)
   = Some \<lparr>var_runningPnL = 52 / 5, var_peak = 107 / 10,
           var_maxDrawdown = 30, var_maxDrawdownAmount = 3 / 10\<rparr>"
  by (simp add: drawdown_step_Some drawdown_init_def exact_ops Let_def)

lemma sharpe_three_tenths_binary64:
  "\<exists>r. calculateUserAnalytics (binary64_runtime (3 + L)) sessions
         [\<lparr>profit_loss = p1, roi = rnd (1 / 10), entry_side = e1\<rparr>,
          \<lparr>profit_loss = p2, roi = rnd (1 / 10), entry_side = e2\<rparr>,
          \<lparr>profit_loss = p3, roi = rnd (1 / 10), entry_side = e3\<rparr>] = Some r \<and>
       sharpeRatio r = Fin 7205759403792795"
proof -
  let ?ts = "[\<lparr>profit_loss = p1, roi = rnd (1 / 10), entry_side = e1\<rparr>,
          \<lparr>profit_loss = p2, roi = rnd (1 / 10), entry_side = e2\<rparr>,
          \<lparr>profit_loss = p3, roi = rnd (1 / 10), entry_side = e3\<rparr>]"
  have ne: "?ts \<noteq> []" and len: "length ?ts \<le> 3 + L" by simp_all
  have m: "map roi ?ts = [rnd (1 / 10), rnd (1 / 10), rnd (1 / 10)]"
    and l: "length ?ts = Suc (Suc (Suc 0))" by simp_all
  from calculateUserAnalytics_binary64[OF ne len, of sessions]
  show ?thesis unfolding m l sharpe_three_tenths by blast
qed

section \<open>The claims\<close>

text \<open>
  Claim C1. For every ordered sequence of trades the function walks the sequence with a
  running cumulative sum and a running peak that starts at zero; at each step the
  drawdown is peak minus running sum, and whenever it exceeds the best-seen drawdown the
  function records it as \<open>maxDrawdownAmount\<close> and sets \<open>maxDrawdown\<close> (the percentage) to
  drawdown / peak * 100 when the peak is positive and to 0 otherwise.

  Stated in the arithmetic of the code, for every sequence within the argument limit:
  the function returns; \<open>maxDrawdownAmount\<close> is the best-seen drawdown of the walk; and
  there is a last recording step \<open>k\<close> (0 when nothing was recorded, and then both fields
  are 0): at step \<open>k\<close> the drawdown exceeded the best seen before, the two fields are the
  drawdown and the percentage of that step, and no later drawdown exceeds the amount.
  For the profit-and-loss sequence 10, -20, 5 the amount is 20 and the percentage 200.
  For 1, -0.3, 10, -0.3 the two drawdowns, both 0.3 in exact arithmetic, are
  0.30000000000000004 and 0.3000000000000007 in doubles, so the last step is recorded:
  the percentage is 2.8037383177570163 and the risk level \<open>Low\<close>.
\<close>

theorem drawdown_rule:
  "(length trades \<le> L \<longrightarrow>
      (\<exists>r. calculateUserAnalytics (binary64_runtime L) sessions trades = Some r \<and>
           maxDrawdownAmount r = spec_best (binary64_runtime L) trades \<and>
           (\<exists>k\<le>length trades.
               (\<forall>j. k < j \<and> j \<le> length trades \<longrightarrow>
                    \<not> d_gt (spec_drawdown (binary64_runtime L) (take j trades))
                            (maxDrawdownAmount r)) \<and>
               (if k = 0
                then maxDrawdownAmount r = Fin 0 \<and> maxDrawdown r = Fin 0
                else d_gt (spec_drawdown (binary64_runtime L) (take k trades))
                          (spec_best (binary64_runtime L) (take (k - 1) trades)) \<and>
                     maxDrawdownAmount r = spec_drawdown (binary64_runtime L) (take k trades) \<and>
                     Some (maxDrawdown r) = spec_percent (binary64_runtime L) (take k trades))))) \<and>
   (\<exists>r. calculateUserAnalytics (binary64_runtime (3 + L)) sessions
          (map (\<lambda>p. \<lparr>profit_loss = p, roi = f p, entry_side = g p\<rparr>)
               [Fin 10, Fin (- 20), Fin 5]) = Some r \<and>
        maxDrawdownAmount r = Fin 20 \<and> maxDrawdown r = Fin 200) \<and>
   (\<exists>r. calculateUserAnalytics (binary64_runtime (4 + L)) sessions
          (map (\<lambda>p. \<lparr>profit_loss = p, roi = f p, entry_side = g p\<rparr>)
               [Fin 1, rnd (- (3 / 10)), Fin 10, rnd (- (3 / 10))]) = Some r \<and>
        maxDrawdownAmount r = Fin (168884986026394 / 2 ^ 49) \<and>
        maxDrawdown r = Fin (6313457421547440 / 2 ^ 51) \<and>
        riskLevel r = Low)"
proof (intro conjI impI)
  assume len: "length trades \<le> L"
  let ?rt = "binary64_runtime L"
  show "\<exists>r. calculateUserAnalytics ?rt sessions trades = Some r \<and>
           maxDrawdownAmount r = spec_best ?rt trades \<and>
           (\<exists>k\<le>length trades.
               (\<forall>j. k < j \<and> j \<le> length trades \<longrightarrow>
                    \<not> d_gt (spec_drawdown ?rt (take j trades)) (maxDrawdownAmount r)) \<and>
               (if k = 0
                then maxDrawdownAmount r = Fin 0 \<and> maxDrawdown r = Fin 0
                else d_gt (spec_drawdown ?rt (take k trades))
                          (spec_best ?rt (take (k - 1) trades)) \<and>
                     maxDrawdownAmount r = spec_drawdown ?rt (take k trades) \<and>
                     Some (maxDrawdown r) = spec_percent ?rt (take k trades)))"
  proof -
    have "\<exists>r. calculateUserAnalytics ?rt sessions trades = Some r"
    proof (cases "trades = []")
      case True
      then show ?thesis by (simp add: calculateUserAnalytics_def)
    next
      case False
      from calculateUserAnalytics_binary64[OF False len, of sessions]
      show ?thesis by blast
    qed
    then obtain r where r: "calculateUserAnalytics ?rt sessions trades = Some r" by blast
    from calculateUserAnalytics_drawdown_fields[OF r]
    obtain dd where dd: "forEach (drawdown_step ?rt) trades (drawdown_init ?rt) = Some dd"
      and f: "maxDrawdownAmount r = var_maxDrawdownAmount dd" "maxDrawdown r = var_maxDrawdown dd"
      by blast
    from drawdown_walk_invariant[OF dd]
    have inv: "var_maxDrawdownAmount dd = spec_best ?rt trades \<and>
     (\<exists>k\<le>length trades.
         (\<forall>j. k < j \<and> j \<le> length trades \<longrightarrow>
              \<not> n_gt ?rt (spec_drawdown ?rt (take j trades)) (var_maxDrawdownAmount dd)) \<and>
         (if k = 0
          then var_maxDrawdownAmount dd = n_lit ?rt 0 \<and> var_maxDrawdown dd = n_lit ?rt 0
          else n_gt ?rt (spec_drawdown ?rt (take k trades)) (spec_best ?rt (take (k - 1) trades)) \<and>
               var_maxDrawdownAmount dd = spec_drawdown ?rt (take k trades) \<and>
               Some (var_maxDrawdown dd) = spec_percent ?rt (take k trades)))"
      by blast
    show ?thesis
      using r inv unfolding f[symmetric] binary64_ops(1,9) d_lit_0 by blast
  qed
next
  let ?ts = "map (\<lambda>p. \<lparr>profit_loss = p, roi = f p, entry_side = g p\<rparr>)
               [Fin 10, Fin (- 20), Fin 5]"
  have ne: "?ts \<noteq> []" and len: "length ?ts \<le> 3 + L" by simp_all
  from calculateUserAnalytics_binary64[OF ne len, of sessions]
    drawdown_example_binary64[of "3 + L" f g]
  show "\<exists>r. calculateUserAnalytics (binary64_runtime (3 + L)) sessions ?ts = Some r \<and>
          maxDrawdownAmount r = Fin 20 \<and> maxDrawdown r = Fin 200"
    by fastforce
next
  let ?ts = "map (\<lambda>p. \<lparr>profit_loss = p, roi = f p, entry_side = g p\<rparr>)
               [Fin 1, rnd (- (3 / 10)), Fin 10, rnd (- (3 / 10))]"
  have ne: "?ts \<noteq> []" and len: "length ?ts \<le> 4 + L" by simp_all
  from calculateUserAnalytics_binary64[OF ne len, of sessions]
  obtain dd r where dd: "forEach (drawdown_step (binary64_runtime (4 + L))) ?ts
        (drawdown_init (binary64_runtime (4 + L))) = Some dd"
    and r: "calculateUserAnalytics (binary64_runtime (4 + L)) sessions ?ts = Some r"
      "maxDrawdownAmount r = var_maxDrawdownAmount dd"
      "maxDrawdown r = var_maxDrawdown dd"
      "riskLevel r = (if d_gt (var_maxDrawdown dd) (d_lit 20) then High
                   else if d_gt (var_maxDrawdown dd) (d_lit 10) then Moderate else Low)"
    by blast
  from dd have ddv: "dd = \<lparr>var_runningPnL = Fin (5854679515581644 / 2 ^ 49),
           var_peak = Fin (6023564501608038 / 2 ^ 49),
           var_maxDrawdown = Fin (6313457421547440 / 2 ^ 51),
           var_maxDrawdownAmount = Fin (168884986026394 / 2 ^ 49)\<rparr>"
    unfolding drawdown_near_tie_binary64 by simp
  have "riskLevel r = Low"
    unfolding r(4) ddv by (simp add: d_lit_numeral)
  with r ddv
  show "\<exists>r. calculateUserAnalytics (binary64_runtime (4 + L)) sessions ?ts = Some r \<and>
        maxDrawdownAmount r = Fin (168884986026394 / 2 ^ 49) \<and>
        maxDrawdown r = Fin (6313457421547440 / 2 ^ 51) \<and>
        riskLevel r = Low"
    by simp
qed

theorem drawdown_rule_witness:
  "\<exists>r. calculateUserAnalytics (binary64_runtime 3) []
         [\<lparr>profit_loss = Fin 10, roi = Fin 1, entry_side = ''Long''\<rparr>,
          \<lparr>profit_loss = Fin (- 20), roi = Fin (- 2), entry_side = ''Short''\<rparr>,
          \<lparr>profit_loss = Fin 5, roi = Fin 1, entry_side = ''Long''\<rparr>] = Some r \<and>
       maxDrawdownAmount r = Fin 20 \<and> maxDrawdown r = Fin 200 \<and>
       maxDrawdownAmount r = spec_best (binary64_runtime 3)
         [\<lparr>profit_loss = Fin 10, roi = Fin 1, entry_side = ''Long''\<rparr>,
          \<lparr>profit_loss = Fin (- 20), roi = Fin (- 2), entry_side = ''Short''\<rparr>,
          \<lparr>profit_loss = Fin 5, roi = Fin 1, entry_side = ''Long''\<rparr>]"
proof -
  let ?ts = "[\<lparr>profit_loss = Fin 10, roi = Fin 1, entry_side = ''Long''\<rparr>,
          \<lparr>profit_loss = Fin (- 20), roi = Fin (- 2), entry_side = ''Short''\<rparr>,
          \<lparr>profit_loss = Fin 5, roi = Fin 1, entry_side = ''Long''\<rparr>]"
  note th = drawdown_rule[where trades = ?ts and L = 3 and sessions = "[]"]
  note ex = drawdown_rule[where L = 0 and sessions = "[]"
      and f = "\<lambda>p. if p = Fin (- 20) then Fin (- 2) else Fin 1"
      and g = "\<lambda>p. if p = Fin (- 20) then ''Short'' else ''Long''"]
  have len: "length ?ts \<le> 3" by simp
  from th len obtain r where a: "calculateUserAnalytics (binary64_runtime 3) [] ?ts = Some r"
    "maxDrawdownAmount r = spec_best (binary64_runtime 3) ?ts"
    by blast
  from ex obtain r' where b: "calculateUserAnalytics (binary64_runtime 3) [] ?ts = Some r'"
    "maxDrawdownAmount r' = Fin 20" "maxDrawdown r' = Fin 200"
    by auto
  from a b show ?thesis by simp
qed

text \<open>
  Claim C2. For every ordered sequence of trades the function walks the sequence with a
  win-run counter and a loss-run counter: a trade with \<open>profit_loss > 0\<close> increments the
  first and resets the second, every other trade (a trade with \<open>profit_loss = 0\<close>
  included) resets the first and increments the second. \<open>bestStreak\<close> and \<open>worstStreak\<close>
  are the largest values the two counters reach. For the outcomes win, win, loss, win,
  loss, loss, loss the result is 2 and 3; two zero trades in a row are a loss run of 2.
\<close>

theorem streaks_rule:
  "(\<exists>r. calculateUserAnalytics exact_runtime sessions trades = Some r \<and>
        bestStreak r
          = Max ((\<lambda>k. fst (spec_streak_counters (take k trades))) ` {..length trades}) \<and>
        worstStreak r
          = Max ((\<lambda>k. snd (spec_streak_counters (take k trades))) ` {..length trades})) \<and>
   (\<exists>r. calculateUserAnalytics exact_runtime sessions
          (map (\<lambda>p. \<lparr>profit_loss = p, roi = f p, entry_side = g p\<rparr>)
               [5, 3, - 2, 4, - 1, - 7, - 6]) = Some r \<and>
        bestStreak r = 2 \<and> worstStreak r = 3) \<and>
   (\<exists>r. calculateUserAnalytics exact_runtime sessions
          (map (\<lambda>p. \<lparr>profit_loss = p, roi = f p, entry_side = g p\<rparr>) [4, 0, 0]) = Some r \<and>
        bestStreak r = 1 \<and> worstStreak r = 2)"
proof (intro conjI)
  show "\<exists>r. calculateUserAnalytics exact_runtime sessions trades = Some r \<and>
        bestStreak r
          = Max ((\<lambda>k. fst (spec_streak_counters (take k trades))) ` {..length trades}) \<and>
        worstStreak r
          = Max ((\<lambda>k. snd (spec_streak_counters (take k trades))) ` {..length trades})"
  proof (cases "trades = []")
    case True
    then show ?thesis
      by (simp add: calculateUserAnalytics_empty spec_streak_counters_def)
  next
    case False
    from calculateUserAnalytics_nonempty[OF False, of sessions]
    obtain st r where st: "forEach (streak_step exact_runtime) trades streak_init = Some st"
      and r: "calculateUserAnalytics exact_runtime sessions trades = Some r"
        "bestStreak r = var_bestStreak st" "worstStreak r = var_worstStreak st"
      by fastforce
    from streak_loop_invariant[OF st] r show ?thesis by simp
  qed
next
  let ?ts = "map (\<lambda>p. \<lparr>profit_loss = p, roi = f p, entry_side = g p\<rparr>)
               [5, 3, - 2, 4, - 1, - 7, - 6]"
  have ne: "?ts \<noteq> []" by simp
  have run: "forEach (streak_step exact_runtime) ?ts streak_init
      = Some \<lparr>var_bestStreak = 2, var_worstStreak = 3,
              var_currentWinStreak = 0, var_currentLossStreak = 3\<rparr>"
    by (simp add: streak_step_def exact_ops streak_init_def Let_def)
  from calculateUserAnalytics_nonempty[OF ne, of sessions] run
  show "\<exists>r. calculateUserAnalytics exact_runtime sessions ?ts = Some r \<and> bestStreak r = 2 \<and> worstStreak r = 3"
    by fastforce
next
  let ?ts = "map (\<lambda>p. \<lparr>profit_loss = p, roi = f p, entry_side = g p\<rparr>) [4, 0, 0]"
  have ne: "?ts \<noteq> []" by simp
  have run: "forEach (streak_step exact_runtime) ?ts streak_init
      = Some \<lparr>var_bestStreak = 1, var_worstStreak = 2,
              var_currentWinStreak = 0, var_currentLossStreak = 2\<rparr>"
    by (simp add: streak_step_def exact_ops streak_init_def Let_def)
  from calculateUserAnalytics_nonempty[OF ne, of sessions] run
  show "\<exists>r. calculateUserAnalytics exact_runtime sessions ?ts = Some r \<and> bestStreak r = 1 \<and> worstStreak r = 2"
    by fastforce
qed

text \<open>
  Claim C3. For every non-empty trade sequence, with \<open>grossProfit\<close> the sum of
  \<open>profit_loss\<close> over the trades with \<open>profit_loss > 0\<close> and \<open>grossLoss\<close> the absolute
  value of the sum over the trades with \<open>profit_loss < 0\<close>, \<open>profitFactor\<close> is
  \<open>grossProfit / grossLoss\<close> when \<open>grossLoss > 0\<close>; otherwise it is the sentinel 999 when
  \<open>grossProfit > 0\<close> and 0 when \<open>grossProfit\<close> is not positive.
\<close>

theorem profitFactor_rule:
  assumes "trades \<noteq> []"
  shows "\<exists>r. calculateUserAnalytics exact_runtime sessions trades = Some r \<and>
    (let grossProfit = (\<Sum>t\<leftarrow>filter (\<lambda>t. profit_loss t > 0) trades. profit_loss t);
         grossLoss = \<bar>\<Sum>t\<leftarrow>filter (\<lambda>t. profit_loss t < 0) trades. profit_loss t\<bar>
     in profitFactor r =
          (if grossLoss > 0 then grossProfit / grossLoss
           else if grossProfit > 0 then 999 else 0))"
  using calculateUserAnalytics_nonempty[OF assms, of sessions]
  by (elim exE conjE) (simp add: Let_def)

theorem profitFactor_rule_witness:
  "[\<lparr>profit_loss = 10, roi = 1, entry_side = ''Long''\<rparr>,
    \<lparr>profit_loss = 20, roi = 2, entry_side = ''Long''\<rparr>,
    \<lparr>profit_loss = 30, roi = 3, entry_side = ''Short''\<rparr>] \<noteq> [] \<and>
   (\<exists>r. calculateUserAnalytics exact_runtime []
          [\<lparr>profit_loss = 10, roi = 1, entry_side = ''Long''\<rparr>,
           \<lparr>profit_loss = 20, roi = 2, entry_side = ''Long''\<rparr>,
           \<lparr>profit_loss = 30, roi = 3, entry_side = ''Short''\<rparr>] = Some r \<and>
        profitFactor r = 999) \<and>
   (\<exists>r. calculateUserAnalytics exact_runtime []
          [\<lparr>profit_loss = 10, roi = 1, entry_side = ''Long''\<rparr>,
           \<lparr>profit_loss = - 4, roi = 2, entry_side = ''Long''\<rparr>,
           \<lparr>profit_loss = 0, roi = 2, entry_side = ''Long''\<rparr>,
           \<lparr>profit_loss = - 1, roi = 3, entry_side = ''Short''\<rparr>] = Some r \<and>
        profitFactor r = 2)"
  using profitFactor_rule[of "[\<lparr>profit_loss = 10, roi = 1, entry_side = ''Long''\<rparr>,
    \<lparr>profit_loss = 20, roi = 2, entry_side = ''Long''\<rparr>,
    \<lparr>profit_loss = 30, roi = 3, entry_side = ''Short''\<rparr>]" "[]"]
    profitFactor_rule[of "[\<lparr>profit_loss = 10, roi = 1, entry_side = ''Long''\<rparr>,
           \<lparr>profit_loss = - 4, roi = 2, entry_side = ''Long''\<rparr>,
           \<lparr>profit_loss = 0, roi = 2, entry_side = ''Long''\<rparr>,
           \<lparr>profit_loss = - 1, roi = 3, entry_side = ''Short''\<rparr>]" "[]"]
  by (simp add: Let_def)

text \<open>
  Claim C4. For every non-empty trade sequence \<open>sharpeRatio\<close> is the arithmetic mean of the
  \<open>roi\<close> values divided by their population standard deviation, and exactly 0 when that
  standard deviation is zero.

  The code guards the division with \<^verbatim>\<open>stdDev > 0\<close>, but the guard tests the computed
  deviation. For three trades with \<open>roi\<close> 0.1 the returns have no variance and in exact
  arithmetic the function returns 0, as the claim says. In doubles the sum of the three
  returns rounds to 0.30000000000000004, the mean to 0.10000000000000002, each deviation
  is \<open>- 1 / 2 ^ 56\<close>, the computed standard deviation is \<open>1 / 2 ^ 56 > 0\<close>, and
  \<open>sharpeRatio\<close> is 7205759403792795.
\<close>

theorem sharpeRatio_zero_variance_missed:
  "(\<exists>r. calculateUserAnalytics (binary64_runtime (3 + L)) sessions
          [\<lparr>profit_loss = p1, roi = rnd (1 / 10), entry_side = e1\<rparr>,
           \<lparr>profit_loss = p2, roi = rnd (1 / 10), entry_side = e2\<rparr>,
           \<lparr>profit_loss = p3, roi = rnd (1 / 10), entry_side = e3\<rparr>] = Some r \<and>
        sharpeRatio r = Fin 7205759403792795) \<and>
   (\<exists>r. calculateUserAnalytics exact_runtime xsessions
          [\<lparr>profit_loss = q1, roi = 1 / 10, entry_side = e1\<rparr>,
           \<lparr>profit_loss = q2, roi = 1 / 10, entry_side = e2\<rparr>,
           \<lparr>profit_loss = q3, roi = 1 / 10, entry_side = e3\<rparr>] = Some r \<and>
        sharpeRatio r = 0)"
proof (intro conjI)
  show "\<exists>r. calculateUserAnalytics (binary64_runtime (3 + L)) sessions
          [\<lparr>profit_loss = p1, roi = rnd (1 / 10), entry_side = e1\<rparr>,
           \<lparr>profit_loss = p2, roi = rnd (1 / 10), entry_side = e2\<rparr>,
           \<lparr>profit_loss = p3, roi = rnd (1 / 10), entry_side = e3\<rparr>] = Some r \<and>
        sharpeRatio r = Fin 7205759403792795"
    by (rule sharpe_three_tenths_binary64)
next
  let ?ts = "[\<lparr>profit_loss = q1, roi = 1 / 10, entry_side = e1\<rparr>,
           \<lparr>profit_loss = q2, roi = 1 / 10, entry_side = e2\<rparr>,
           \<lparr>profit_loss = q3, roi = (1 / 10 :: real), entry_side = e3\<rparr>]"
  have ne: "?ts \<noteq> []" by simp
  from calculateUserAnalytics_nonempty[OF ne, of xsessions]
  obtain r where r: "calculateUserAnalytics exact_runtime xsessions ?ts = Some r"
    "sharpeRatio r =
       (let avgReturn = sum_list (map roi ?ts) / real (length ?ts);
            stdDev = sqrt (sum_list (map (\<lambda>r. (r - avgReturn) ^ 2) (map roi ?ts))
                             / real (length ?ts))
        in if stdDev > 0 then avgReturn / stdDev else 0)"
    by fastforce
  have "sharpeRatio r = 0" unfolding r(2) by simp
  with r(1) show "\<exists>r. calculateUserAnalytics exact_runtime xsessions ?ts = Some r \<and>
        sharpeRatio r = 0"
    by blast
qed

text \<open>
  Claim C5. For the empty trade sequence and any list of sessions the function returns
  \<open>winRate = 0\<close>, \<open>sharpeRatio = 0\<close>, \<open>maxDrawdown = 0\<close> (the drawdown percentage),
  \<open>profitFactor = 0\<close> and \<open>riskLevel = Low\<close>, while \<open>activeCapital\<close> is the sum of the
  sessions' \<open>current_capital\<close>.
\<close>

theorem empty_trades_defaults:
  "\<exists>r. calculateUserAnalytics exact_runtime sessions [] = Some r \<and>
       winRate r = 0 \<and> sharpeRatio r = 0 \<and> maxDrawdown r = 0 \<and> profitFactor r = 0 \<and>
       riskLevel r = Low \<and>
       activeCapital r = sum_list (map current_capital sessions)"
  by (simp add: calculateUserAnalytics_empty)

text \<open>
  Claim C6. For every non-empty trade sequence \<open>winRate\<close> is the number of trades with
  \<open>profit_loss > 0\<close> divided by the number of all trades, times 100. A trade with
  \<open>profit_loss = 0\<close> is neither a winning nor a losing trade: the winning, the losing and
  the zero trades are three disjoint groups that together make up the sequence.
\<close>

theorem winRate_rule:
  assumes "trades \<noteq> []"
  shows "\<exists>r. calculateUserAnalytics exact_runtime sessions trades = Some r \<and>
    (let wins = length (filter (\<lambda>t. profit_loss t > 0) trades);
         losses = length (filter (\<lambda>t. profit_loss t < 0) trades);
         flats = length (filter (\<lambda>t. profit_loss t = 0) trades)
     in winRate r = real wins / real (length trades) * 100 \<and>
        length trades = wins + losses + flats)"
proof -
  have part: "length ts = length (filter (\<lambda>t. profit_loss t > 0) ts)
     + length (filter (\<lambda>t. profit_loss t < 0) ts)
     + length (filter (\<lambda>t. profit_loss t = 0) ts)" for ts :: "real Trade list"
    by (induction ts) auto
  from calculateUserAnalytics_nonempty[OF assms, of sessions] part[of trades]
  show ?thesis by (elim exE conjE) (simp add: Let_def)
qed

theorem winRate_rule_witness:
  "[\<lparr>profit_loss = 10, roi = 1, entry_side = ''Long''\<rparr>,
    \<lparr>profit_loss = 0, roi = 0, entry_side = ''Long''\<rparr>,
    \<lparr>profit_loss = - 5, roi = 3, entry_side = ''Short''\<rparr>,
    \<lparr>profit_loss = 0, roi = 0, entry_side = ''Short''\<rparr>] \<noteq> [] \<and>
   (\<exists>r. calculateUserAnalytics exact_runtime []
          [\<lparr>profit_loss = 10, roi = 1, entry_side = ''Long''\<rparr>,
           \<lparr>profit_loss = 0, roi = 0, entry_side = ''Long''\<rparr>,
           \<lparr>profit_loss = - 5, roi = 3, entry_side = ''Short''\<rparr>,
           \<lparr>profit_loss = 0, roi = 0, entry_side = ''Short''\<rparr>] = Some r \<and>
        winRate r = 25)"
  using winRate_rule[of "[\<lparr>profit_loss = 10, roi = 1, entry_side = ''Long''\<rparr>,
    \<lparr>profit_loss = 0, roi = 0, entry_side = ''Long''\<rparr>,
    \<lparr>profit_loss = - 5, roi = 3, entry_side = ''Short''\<rparr>,
    \<lparr>profit_loss = 0, roi = 0, entry_side = ''Short''\<rparr>]" "[]"]
  by (simp add: Let_def)

text \<open>
  Claim C7. For every trade sequence the returned \<open>riskLevel\<close> is a step function of the
  returned drawdown percentage: \<open>High\<close> above 20, \<open>Moderate\<close> above 10 (and not above 20),
  \<open>Low\<close> otherwise.
\<close>

theorem riskLevel_step_function:
  "\<exists>r. calculateUserAnalytics exact_runtime sessions trades = Some r \<and>
       riskLevel r = (if maxDrawdown r > 20 then High
                      else if maxDrawdown r > 10 then Moderate else Low)"
proof (cases "trades = []")
  case True
  then show ?thesis by (simp add: calculateUserAnalytics_empty)
next
  case False
  from calculateUserAnalytics_nonempty[OF False, of sessions]
  obtain r where "calculateUserAnalytics exact_runtime sessions trades = Some r"
    "riskLevel r = (if maxDrawdown r > 20 then High
                      else if maxDrawdown r > 10 then Moderate else Low)"
    by fastforce
  then show ?thesis by blast
qed

text \<open>
  Claim C8. For every finite trade sequence with finite values and every session list the
  function raises no error and returns a value, and the numeric edge cases (empty input,
  zero variance, zero losses) are answered by a sentinel rather than by a division by
  zero or a non-finite result.

  In the arithmetic of the code this fails in three ways. With more trades than the
  engine accepts as arguments, \<^verbatim>\<open>Math.max(...)\<close> at line 173 throws and there is no
  result, whatever the trades are. Three equal returns of 0.1 have no variance, yet
  \<open>sharpeRatio\<close> is 7205759403792795 and not the sentinel 0. Two finite returns of
  \<open>2 ^ 1023\<close> overflow the sum, and \<open>sharpeRatio\<close> is NaN.
\<close>

theorem error_and_non_finite_results:
  "calculateUserAnalytics (binary64_runtime L) sessions (replicate (Suc L) t) = None \<and>
   (\<exists>r. calculateUserAnalytics (binary64_runtime (3 + L)) sessions
          [\<lparr>profit_loss = p1, roi = rnd (1 / 10), entry_side = e1\<rparr>,
           \<lparr>profit_loss = p2, roi = rnd (1 / 10), entry_side = e2\<rparr>,
           \<lparr>profit_loss = p3, roi = rnd (1 / 10), entry_side = e3\<rparr>] = Some r \<and>
        sharpeRatio r = Fin 7205759403792795) \<and>
   (\<exists>r. calculateUserAnalytics (binary64_runtime (2 + L)) sessions
          [\<lparr>profit_loss = p1, roi = Fin (2 ^ 1023), entry_side = e1\<rparr>,
           \<lparr>profit_loss = p2, roi = Fin (2 ^ 1023), entry_side = e2\<rparr>] = Some r \<and>
        sharpeRatio r = NaN)"
proof (intro conjI)
  show "calculateUserAnalytics (binary64_runtime L) sessions (replicate (Suc L) t) = None"
    by (rule calculateUserAnalytics_binary64_RangeError) simp
next
  show "\<exists>r. calculateUserAnalytics (binary64_runtime (3 + L)) sessions
          [\<lparr>profit_loss = p1, roi = rnd (1 / 10), entry_side = e1\<rparr>,
           \<lparr>profit_loss = p2, roi = rnd (1 / 10), entry_side = e2\<rparr>,
           \<lparr>profit_loss = p3, roi = rnd (1 / 10), entry_side = e3\<rparr>] = Some r \<and>
        sharpeRatio r = Fin 7205759403792795"
    by (rule sharpe_three_tenths_binary64)
next
  let ?ts = "[\<lparr>profit_loss = p1, roi = Fin (2 ^ 1023), entry_side = e1\<rparr>,
           \<lparr>profit_loss = p2, roi = Fin (2 ^ 1023), entry_side = e2\<rparr>]"
  have ne: "?ts \<noteq> []" and len: "length ?ts \<le> 2 + L" by simp_all
  have m: "map roi ?ts = [Fin (2 ^ 1023), Fin (2 ^ 1023)]"
    and l: "length ?ts = Suc (Suc 0)" by simp_all
  from calculateUserAnalytics_binary64[OF ne len, of sessions]
  show "\<exists>r. calculateUserAnalytics (binary64_runtime (2 + L)) sessions ?ts = Some r \<and>
        sharpeRatio r = NaN"
    unfolding m l sharpe_overflow by blast
qed

text \<open>
  Claim C9. For every trade sequence \<open>longTrades + shortTrades \<le> totalTrades\<close>, where
  \<open>longTrades\<close> counts the trades whose \<open>entry_side\<close> is \<open>Long\<close> and \<open>shortTrades\<close> those
  whose \<open>entry_side\<close> is \<open>Short\<close>; a trade with neither value is counted in neither field,
  so the two counts and the number of such trades add up to \<open>totalTrades\<close>.
\<close>

theorem long_short_counts:
  "\<exists>r. calculateUserAnalytics exact_runtime sessions trades = Some r \<and>
       longTrades r + shortTrades r \<le> totalTrades r \<and>
       totalTrades r = length trades \<and>
       longTrades r = length (filter (\<lambda>t. entry_side t = ''Long'') trades) \<and>
       shortTrades r = length (filter (\<lambda>t. entry_side t = ''Short'') trades) \<and>
       longTrades r + shortTrades r +
         length (filter (\<lambda>t. entry_side t \<noteq> ''Long'' \<and> entry_side t \<noteq> ''Short'') trades)
         = totalTrades r"
proof -
  have part: "length (filter (\<lambda>t. entry_side t = ''Long'') ts)
      + length (filter (\<lambda>t. entry_side t = ''Short'') ts)
      + length (filter (\<lambda>t. entry_side t \<noteq> ''Long'' \<and> entry_side t \<noteq> ''Short'') ts)
      = length ts" for ts :: "real Trade list"
    by (induction ts) auto
  show ?thesis
  proof (cases "trades = []")
    case True
    then show ?thesis by (simp add: calculateUserAnalytics_empty)
  next
    case False
    from calculateUserAnalytics_nonempty[OF False, of sessions]
    obtain r where r: "calculateUserAnalytics exact_runtime sessions trades = Some r"
      "totalTrades r = length trades"
      "longTrades r = length (filter (\<lambda>t. entry_side t = ''Long'') trades)"
      "shortTrades r = length (filter (\<lambda>t. entry_side t = ''Short'') trades)"
      by fastforce
    with part[of trades] show ?thesis by simp
  qed
qed

text \<open>
  Claim C10. For a fixed trade sequence and any two session lists the two results agree on
  every field except \<open>activeCapital\<close>, which is the sum of the \<open>current_capital\<close> of the
  sessions given.
\<close>

theorem sessions_only_affect_activeCapital:
  "\<exists>r1 r2. calculateUserAnalytics exact_runtime sessions1 trades = Some r1 \<and>
           calculateUserAnalytics exact_runtime sessions2 trades = Some r2 \<and>
           r1 = r2\<lparr>activeCapital := sum_list (map current_capital sessions1)\<rparr> \<and>
           activeCapital r2 = sum_list (map current_capital sessions2)"
proof (cases "trades = []")
  case True
  then show ?thesis by (simp add: calculateUserAnalytics_empty)
next
  case False
  from calculateUserAnalytics_nonempty[OF False, of sessions1]
       calculateUserAnalytics_nonempty[OF False, of sessions2]
  show ?thesis by (elim exE conjE) simp
qed

end
